theory Spec2Isabelle
  imports Main "HOL-Library.Sublist"
begin

section \<open>The OAuth login terminal bridge of openclaw-helper\<close>

text \<open>
  The bridge is the WebSocket module of the helper: \<^verbatim>\<open>setupWebSocket\<close> accepts upgrade
  requests, \<^verbatim>\<open>handleOAuthLogin\<close> registers the listeners of one connection. Everything
  the code does happens inside event callbacks (socket message, process output, process
  exit, child error, timer, socket close), so a connection is modelled as a state record and one
  transition function \<open>step\<close> per event; \<open>run\<close> folds it over a list of events.

  What the platform computes is an input of the model: the result of \<^verbatim>\<open>JSON.parse\<close> is
  carried by the message event, the result of \<^verbatim>\<open>new URL(...)\<close> by the upgrade request,
  and the outcome of \<^verbatim>\<open>import('node-pty')\<close>, \<^verbatim>\<open>pty.spawn\<close> and \<^verbatim>\<open>child_process.spawn\<close>
  by the host record. The body of the asynchronous message handler is taken as one
  atomic transition (its single \<^verbatim>\<open>await\<close> is the module import).

  The definitions follow the current WebSocket module. The repository also keeps earlier
  forms of the same handler inside \<^verbatim>\<open>index.ts\<close>.
\<close>

subsection \<open>Values received from the socket\<close>

text \<open>
  A parsed JSON value. A number is kept as an integer: the handlers only ever test a
  number for being zero.
\<close>

datatype json =
    JNull
  | JBool bool
  | JNum int
  | JStr string
  | JArr "json list"
  | JObj "(string \<times> json) list"

text \<open>\<^verbatim>\<open>JSON.parse(message.toString())\<close> either throws or returns a value.\<close>

datatype parse_result = Malformed | Parsed json

text \<open>
  Property read \<^verbatim>\<open>v.k\<close> on a non-null value, for the keys the handlers read
  (\<^verbatim>\<open>provider\<close>, \<^verbatim>\<open>type\<close>, \<^verbatim>\<open>data\<close>): \<open>None\<close> is \<^verbatim>\<open>undefined\<close>. Reading a property
  of \<^verbatim>\<open>null\<close> throws; the callers test for \<open>JNull\<close> first.
\<close>

fun property :: "json \<Rightarrow> string \<Rightarrow> json option" where
  "property (JObj kvs) k = map_of kvs k"
| "property v k = None"

text \<open>JavaScript truthiness of a value that may be \<^verbatim>\<open>undefined\<close>.\<close>

fun truthy :: "json option \<Rightarrow> bool" where
  "truthy None = False"
| "truthy (Some JNull) = False"
| "truthy (Some (JBool b)) = b"
| "truthy (Some (JNum n)) = (n \<noteq> 0)"
| "truthy (Some (JStr s)) = (s \<noteq> [])"
| "truthy (Some (JArr vs)) = True"
| "truthy (Some (JObj kvs)) = True"

subsection \<open>Text constants\<close>

text \<open>
  The user-visible messages of the source are Chinese text; a string is modelled as its
  UTF-8 bytes, which is what the socket transmits.
\<close>

definition MSG_NO_PROVIDER :: string where
  "MSG_NO_PROVIDER = [CHR 0xE8, CHR 0xAF, CHR 0xB7, CHR 0xE6, CHR 0x8C, CHR 0x87, CHR 0xE5,
     CHR 0xAE, CHR 0x9A, CHR 0xE6, CHR 0xA8, CHR 0xA1, CHR 0xE5, CHR 0x9E, CHR 0x8B, CHR 0xE6,
     CHR 0x8F, CHR 0x90, CHR 0xE4, CHR 0xBE, CHR 0x9B, CHR 0xE5, CHR 0x95, CHR 0x86]"

definition MSG_UNSUPPORTED :: string where
  "MSG_UNSUPPORTED = [CHR 0xE4, CHR 0xB8, CHR 0x8D, CHR 0xE6, CHR 0x94, CHR 0xAF, CHR 0xE6,
     CHR 0x8C, CHR 0x81, CHR 0xE7, CHR 0x9A, CHR 0x84, CHR 0xE6, CHR 0x8F, CHR 0x90, CHR 0xE4,
     CHR 0xBE, CHR 0x9B, CHR 0xE5, CHR 0x95, CHR 0x86]"

definition MSG_LOGIN_OK :: string where
  "MSG_LOGIN_OK = [CHR 0xE7, CHR 0x99, CHR 0xBB, CHR 0xE5, CHR 0xBD, CHR 0x95, CHR 0xE6,
     CHR 0x88, CHR 0x90, CHR 0xE5, CHR 0x8A, CHR 0x9F, CHR 0xEF, CHR 0xBC, CHR 0x81]"

definition MSG_CMD_FAILED :: string where
  "MSG_CMD_FAILED = [CHR 0xE5, CHR 0x91, CHR 0xBD, CHR 0xE4, CHR 0xBB, CHR 0xA4, CHR 0xE6,
     CHR 0x89, CHR 0xA7, CHR 0xE8, CHR 0xA1, CHR 0x8C, CHR 0xE5, CHR 0xA4, CHR 0xB1, CHR 0xE8,
     CHR 0xB4, CHR 0xA5] @ '' ('' @ [CHR 0xE9, CHR 0x80, CHR 0x80, CHR 0xE5, CHR 0x87, CHR 0xBA,
     CHR 0xE7, CHR 0xA0, CHR 0x81] @ '': ''"

definition MSG_PTY_FAILED :: string where
  "MSG_PTY_FAILED = [CHR 0xEF, CHR 0xBC, CHR 0x8C] @ ''pty '' @ [CHR 0xE5, CHR 0x90, CHR 0xAF,
     CHR 0xE5, CHR 0x8A, CHR 0xA8, CHR 0xE5, CHR 0xA4, CHR 0xB1, CHR 0xE8, CHR 0xB4, CHR 0xA5]
     @ '': ''"

definition MSG_LAUNCH_FAILED :: string where
  "MSG_LAUNCH_FAILED = [CHR 0xE5, CHR 0x90, CHR 0xAF, CHR 0xE5, CHR 0x8A, CHR 0xA8, CHR 0xE7,
     CHR 0xBB, CHR 0x88, CHR 0xE7, CHR 0xAB, CHR 0xAF, CHR 0xE5, CHR 0xA4, CHR 0xB1, CHR 0xE8,
     CHR 0xB4, CHR 0xA5] @ '': ''"

definition CMD_GPT :: string where
  "CMD_GPT = ''openclaw onboard --flow quickstart --auth-choice openai-codex --skip-channels --skip-skills --skip-health --skip-daemon --no-install-daemon --skip-ui''"

definition CMD_QWEN :: string where
  "CMD_QWEN = ''openclaw models auth login --provider qwen-portal --set-default''"

definition OAUTH_PATH :: string where
  "OAUTH_PATH = ''/ws/oauth-login''"

subsection \<open>Numbers in template strings\<close>

text \<open>The decimal digits of a natural number, most significant first.\<close>

function nat_str :: "nat \<Rightarrow> string" where
  "nat_str n =
     (if n < 10 then [''0123456789'' ! n]
      else nat_str (n div 10) @ [''0123456789'' ! (n mod 10)])"
  by pat_completeness auto
termination
  by (relation "measure id") auto

declare nat_str.simps [simp del]

text \<open>
  \<^verbatim>\<open>${code}\<close> for an exit code: an integer prints in decimal, \<^verbatim>\<open>null\<close> (a child
  ended by a signal) prints as the word.
\<close>

definition code_str :: "int option \<Rightarrow> string" where
  "code_str code =
     (case code of
        None \<Rightarrow> ''null''
      | Some n \<Rightarrow> if n < 0 then ''-'' @ nat_str (nat (- n)) else nat_str (nat n))"

text \<open>
  Reading a decimal numeral back, independently of how it was printed: the value of a
  digit character, and of a digit string.
\<close>

definition digit_val :: "char \<Rightarrow> nat" where
  "digit_val c = of_char c - 48"

definition decimal_val :: "string \<Rightarrow> nat" where
  "decimal_val ds = foldl (\<lambda>a c. 10 * a + digit_val c) 0 ds"

definition is_digit :: "char \<Rightarrow> bool" where
  "is_digit c = (c \<in> set ''0123456789'')"

subsection \<open>The host\<close>

text \<open>
  A thrown JavaScript value, as far as the handlers look at it: its \<^verbatim>\<open>message\<close>
  property, which may be absent.
\<close>

datatype js_error = JsError (message: "string option")

text \<open>\<^verbatim>\<open>err?.message\<close> tested for truthiness, and the text appended when it is truthy.\<close>

fun message_truthy :: "js_error \<Rightarrow> bool" where
  "message_truthy (JsError None) = False"
| "message_truthy (JsError (Some m)) = (m \<noteq> [])"

text \<open>\<^verbatim>\<open>'...' + error.message\<close>: an absent message concatenates as \<^verbatim>\<open>undefined\<close>.\<close>

fun message_str :: "js_error \<Rightarrow> string" where
  "message_str (JsError None) = ''undefined''"
| "message_str (JsError (Some m)) = m"

record host =
  env_SHELL :: "string option"
  env_HOME :: "string option"
  env_PATH :: "string option"
  env_TERM :: "string option"
  process_cwd :: string
  import_node_pty :: "js_error option"
  pty_spawn :: "js_error option"
  child_spawn :: "js_error option"

text \<open>
  The last three fields say what the host does when asked: \<open>None\<close> is success,
  \<open>Some e\<close> is the value thrown. A \<^verbatim>\<open>child_process.spawn\<close> that returns may still
  fail to execute its file; that arrives later, as the child's \<^verbatim>\<open>error\<close> event. \<^verbatim>\<open>process.env.X || d\<close> takes \<open>d\<close> when the variable
  is unset or empty.
\<close>

definition or_default :: "string option \<Rightarrow> string \<Rightarrow> string" where
  "or_default v d = (case v of None \<Rightarrow> d | Some x \<Rightarrow> if x = [] then d else x)"

subsection \<open>The connection\<close>

text \<open>
  A server-side socket is created open, so \<^verbatim>\<open>CONNECTING\<close> does not occur.
\<close>

datatype ready_state = OPEN | CLOSING | CLOSED

datatype frame = Output_frame string | Success_frame string | Error_frame string

datatype strategy = Pty | Script

record spawn_call =
  via :: strategy
  spawn_file :: string
  spawn_args :: "string list"
  pty_geometry :: "(nat \<times> nat) option"
  spawn_cwd :: string
  spawn_PATH :: string
  spawn_TERM :: string

text \<open>
  A process handle of the connection: \<open>Shell\<close> is the handle returned by \<^verbatim>\<open>pty.spawn\<close>,
  \<open>Child err\<close> the one returned by \<^verbatim>\<open>child_process.spawn\<close> in the \<^verbatim>\<open>catch (err)\<close>
  block, whose close callback keeps \<open>err\<close>.
\<close>

datatype proc = Shell | Child js_error

datatype log_entry = LogHandlerError | LogClosed | LogSocketError

text \<open>
  \<open>sends\<close> lists the calls of \<^verbatim>\<open>ws.send\<close> in order, each with the \<^verbatim>\<open>readyState\<close> at the
  call. \<open>procs\<close> lists the process handles in creation order; a process is named by its
  index. \<open>listeners\<close> lists the input listeners registered by \<^verbatim>\<open>ws.on('message', ...)\<close>
  after a launch: each is the value of the variable \<^verbatim>\<open>shell\<close> it closes over, \<open>None\<close>
  when that is \<^verbatim>\<open>undefined\<close>. \<open>timers\<close> holds the delays of the pending
  \<^verbatim>\<open>setTimeout(() => ws.close(), ...)\<close> calls. \<open>uncaught\<close> lists the exceptions no
  handler of the source catches.
\<close>

record conn =
  readyState :: ready_state
  sends :: "(ready_state \<times> frame) list"
  spawns :: "spawn_call list"
  procs :: "proc list"
  listeners :: "nat option list"
  writes :: "(nat \<times> json option) list"
  timers :: "nat list"
  console :: "log_entry list"
  uncaught :: "js_error list"

definition ws_send :: "frame \<Rightarrow> conn \<Rightarrow> conn" where
  "ws_send f s = s\<lparr>sends := sends s @ [(readyState s, f)]\<rparr>"

definition ws_close :: "conn \<Rightarrow> conn" where
  "ws_close s = (if readyState s = OPEN then s\<lparr>readyState := CLOSING\<rparr> else s)"

definition setTimeout_close :: "nat \<Rightarrow> conn \<Rightarrow> conn" where
  "setTimeout_close ms s = s\<lparr>timers := timers s @ [ms]\<rparr>"

definition console_error :: "conn \<Rightarrow> conn" where
  "console_error s = s\<lparr>console := console s @ [LogHandlerError]\<rparr>"

subsection \<open>Launching the process\<close>

definition scriptPath :: string where
  "scriptPath = ''/usr/bin/script''"

text \<open>
  The inner \<^verbatim>\<open>try\<close>/\<^verbatim>\<open>catch (err)\<close> of the handler and the registration of the input
  listener after it. The result carries the value thrown to the outer \<^verbatim>\<open>catch\<close>, if any.
\<close>

definition launch :: "host \<Rightarrow> string \<Rightarrow> conn \<Rightarrow> js_error option \<times> conn" where
  "launch h command s =
     (let shPath = or_default (env_SHELL h) ''/bin/sh'';
          home = or_default (env_HOME h) (process_cwd h);
          path = or_default (env_PATH h)
                   (home @ ''/.local/bin:/usr/local/bin:/usr/bin:/bin:/usr/sbin:/sbin'');
          term = or_default (env_TERM h) ''xterm-256color'';
          s1 = s\<lparr>spawns := spawns s @
                 [\<lparr>via = Pty, spawn_file = shPath, spawn_args = [''-lc'', command],
                   pty_geometry = Some (80, 30), spawn_cwd = home, spawn_PATH = path,
                   spawn_TERM = term\<rparr>]\<rparr>
      in case pty_spawn h of
           None \<Rightarrow>
             (None, s1\<lparr>procs := procs s1 @ [Shell],
                       listeners := listeners s1 @ [Some (length (procs s1))]\<rparr>)
         | Some err \<Rightarrow>
             (let s2 = s1\<lparr>spawns := spawns s1 @
                        [\<lparr>via = Script, spawn_file = scriptPath,
                          spawn_args = [''-q'', ''/dev/null'', shPath, ''-lc'', command],
                          pty_geometry = None, spawn_cwd = home, spawn_PATH = path,
                          spawn_TERM = term\<rparr>]\<rparr>
              in case child_spawn h of
                   Some e \<Rightarrow> (Some e, s2)
                 | None \<Rightarrow>
                     (None, s2\<lparr>procs := procs s2 @ [Child err],
                               listeners := listeners s2 @ [None]\<rparr>)))"

text \<open>
  The earlier form of the same \<^verbatim>\<open>catch (err)\<close> block, kept in \<^verbatim>\<open>index.ts\<close>, picks the
  file and arguments of the second spawn by testing \<^verbatim>\<open>scriptPath\<close>:
  \<^verbatim>\<open>if (scriptPath) spawn(scriptPath, ['-q', '/dev/null', fallbackFile, ...fallbackArgs])\<close>,
  else \<^verbatim>\<open>spawn(fallbackFile, fallbackArgs)\<close>.
\<close>

definition index_ts_fallback :: "string \<Rightarrow> string list \<Rightarrow> string \<times> string list" where
  "index_ts_fallback fallbackFile fallbackArgs =
     (if scriptPath \<noteq> [] then (scriptPath, [''-q'', ''/dev/null'', fallbackFile] @ fallbackArgs)
      else (fallbackFile, fallbackArgs))"

text \<open>The outer \<^verbatim>\<open>catch (error)\<close>: one error frame, then \<^verbatim>\<open>ws.close()\<close>.\<close>

definition launch_failed :: "js_error \<Rightarrow> conn \<Rightarrow> conn" where
  "launch_failed e s = ws_close (ws_send (Error_frame (MSG_LAUNCH_FAILED @ message_str e)) s)"

definition start :: "host \<Rightarrow> string \<Rightarrow> conn \<Rightarrow> conn" where
  "start h command s =
     (case launch h command s of
        (Some e, s') \<Rightarrow> launch_failed e s'
      | (None, s') \<Rightarrow> s')"

subsection \<open>The listeners\<close>

text \<open>The message listener registered by \<^verbatim>\<open>handleOAuthLogin\<close>.\<close>

definition handleOAuthLogin_message :: "host \<Rightarrow> parse_result \<Rightarrow> conn \<Rightarrow> conn" where
  "handleOAuthLogin_message h m s =
     (case m of
        Malformed \<Rightarrow> console_error s
      | Parsed data \<Rightarrow>
          if data = JNull then console_error s
          else
            (let provider = property data ''provider''; type = property data ''type''
             in if \<not> truthy type \<and> truthy provider then
                  if \<not> truthy provider then ws_send (Error_frame MSG_NO_PROVIDER) s
                  else
                    (case import_node_pty h of
                       Some e \<Rightarrow> launch_failed e s
                     | None \<Rightarrow>
                         if provider = Some (JStr ''gpt'') then start h CMD_GPT s
                         else if provider = Some (JStr ''qwen'') then start h CMD_QWEN s
                         else ws_send (Error_frame MSG_UNSUPPORTED) s)
                else s))"

text \<open>
  An input listener, closed over \<open>shell\<close>:
  \<^verbatim>\<open>if (inputData.type === 'input' && shell) shell.write(inputData.data)\<close>,
  every exception swallowed.
\<close>

definition input_listener :: "parse_result \<Rightarrow> nat option \<Rightarrow> conn \<Rightarrow> conn" where
  "input_listener m shell s =
     (case m of
        Malformed \<Rightarrow> s
      | Parsed inputData \<Rightarrow>
          if inputData = JNull then s
          else if property inputData ''type'' = Some (JStr ''input'') then
            (case shell of
               Some pid \<Rightarrow> s\<lparr>writes := writes s @ [(pid, property inputData ''data'')]\<rparr>
             | None \<Rightarrow> s)
          else s)"

text \<open>\<^verbatim>\<open>shell.onData\<close>, and the \<^verbatim>\<open>data\<close> listeners of the child's stdout and stderr.\<close>

definition onData :: "string \<Rightarrow> conn \<Rightarrow> conn" where
  "onData d s = (if readyState s = OPEN then ws_send (Output_frame d) s else s)"

text \<open>\<^verbatim>\<open>shell.onExit\<close> and the child's \<^verbatim>\<open>close\<close> listener.\<close>

fun exit_message :: "proc \<Rightarrow> int option \<Rightarrow> string" where
  "exit_message Shell code = MSG_CMD_FAILED @ code_str code @ '')''"
| "exit_message (Child err) code =
     MSG_CMD_FAILED @ code_str code @ '')'' @
       (if message_truthy err then MSG_PTY_FAILED @ message_str err else [])"

definition onExit :: "proc \<Rightarrow> int option \<Rightarrow> conn \<Rightarrow> conn" where
  "onExit p code s =
     (if readyState s = OPEN then
        setTimeout_close 1000
          (if code = Some 0 then ws_send (Success_frame MSG_LOGIN_OK) s
           else ws_send (Error_frame (exit_message p code)) s)
      else s)"

subsection \<open>Events\<close>

datatype event =
    Message parse_result
  | ProcData nat string
  | ProcExit nat "int option"
  | TimerFires
  | SocketClosed
  | SocketError
  | ChildError nat js_error

text \<open>
  A message is delivered to the listeners in registration order: the handler of
  \<^verbatim>\<open>handleOAuthLogin\<close> first, then the input listeners that were registered before the
  message arrived. An event of a process that was never created does nothing.

  \<open>ChildError pid e\<close> is the \<^verbatim>\<open>error\<close> event of a process returned by
  \<^verbatim>\<open>child_process.spawn\<close>, emitted when the file cannot be executed. The source
  registers no listener for it, so the event is thrown as an exception that nothing
  catches; the step records it. (Node then ends the server; the model does not stop
  there, so what is proved of every event list holds of the shorter real ones.)
\<close>

fun step :: "host \<Rightarrow> event \<Rightarrow> conn \<Rightarrow> conn" where
  "step h (Message m) s = fold (input_listener m) (listeners s) (handleOAuthLogin_message h m s)"
| "step h (ProcData pid d) s = (if pid < length (procs s) then onData d s else s)"
| "step h (ProcExit pid code) s =
     (if pid < length (procs s) then onExit (procs s ! pid) code s else s)"
| "step h TimerFires s =
     (case timers s of [] \<Rightarrow> s | t # ts \<Rightarrow> ws_close (s\<lparr>timers := ts\<rparr>))"
| "step h SocketClosed s = s\<lparr>readyState := CLOSED, console := console s @ [LogClosed]\<rparr>"
| "step h SocketError s = s\<lparr>console := console s @ [LogSocketError]\<rparr>"
| "step h (ChildError pid e) s =
     (if pid < length (procs s) then
        (case procs s ! pid of
           Shell \<Rightarrow> s
         | Child err \<Rightarrow> s\<lparr>uncaught := uncaught s @ [e]\<rparr>)
      else s)"

fun run :: "host \<Rightarrow> conn \<Rightarrow> event list \<Rightarrow> conn" where
  "run h s [] = s"
| "run h s (e # es) = run h (step h e s) es"

text \<open>The connection as \<^verbatim>\<open>handleOAuthLogin(ws)\<close> leaves it.\<close>

definition handleOAuthLogin :: conn where
  "handleOAuthLogin =
     \<lparr>readyState = OPEN, sends = [], spawns = [], procs = [], listeners = [], writes = [],
      timers = [], console = [], uncaught = []\<rparr>"

subsection \<open>The upgrade handler\<close>

text \<open>
  \<^verbatim>\<open>server.on('upgrade', ...)\<close> of \<^verbatim>\<open>setupWebSocket\<close>. The first argument is the
  \<^verbatim>\<open>pathname\<close> of \<^verbatim>\<open>new URL(request.url || '', ...)\<close>, \<open>None\<close> when the constructor
  throws (as it does for the request target \<^verbatim>\<open>//\<close>): the call stands outside any
  \<^verbatim>\<open>try\<close>, so the exception leaves the listener before either branch runs. The second
  argument says whether \<^verbatim>\<open>wss.handleUpgrade\<close> completes the handshake and calls back.
\<close>

datatype upgrade_result = Routed conn | HandshakeRefused | Destroyed | Uncaught

definition setupWebSocket :: "string option \<Rightarrow> bool \<Rightarrow> upgrade_result" where
  "setupWebSocket pathname handshake =
     (case pathname of
        None \<Rightarrow> Uncaught
      | Some p \<Rightarrow>
          if p = OAUTH_PATH then
            if handshake then Routed handleOAuthLogin else HandshakeRefused
          else Destroyed)"

subsection \<open>Sample hosts and frames\<close>

text \<open>
  A host where every launch step succeeds, one without pseudo-terminals, one where the
  \<^verbatim>\<open>node-pty\<close> module is not installed, and one where the wrapper spawn throws as well.
\<close>

definition unix_host :: host where
  "unix_host =
     \<lparr>env_SHELL = Some ''/bin/bash'', env_HOME = Some ''/home/op'',
      env_PATH = Some ''/usr/bin:/bin'', env_TERM = None, process_cwd = ''/srv/helper'',
      import_node_pty = None, pty_spawn = None, child_spawn = None\<rparr>"

definition no_pty_host :: host where
  "no_pty_host = unix_host\<lparr>pty_spawn := Some (JsError (Some ''forkpty(3) failed.''))\<rparr>"

definition no_module_host :: host where
  "no_module_host =
     unix_host\<lparr>import_node_pty := Some (JsError (Some ''Cannot find package node-pty''))\<rparr>"

definition no_tty_host :: host where
  "no_tty_host = no_pty_host\<lparr>child_spawn := Some (JsError (Some ''spawn ENOMEM''))\<rparr>"

text \<open>
  \<open>connect_frame p\<close> is \<^verbatim>\<open>{"provider":p}\<close>, \<open>start_frame p\<close> is
  \<^verbatim>\<open>{"type":"start","provider":p}\<close>, \<open>input_frame d\<close> is \<^verbatim>\<open>{"type":"input","data":d}\<close>.
\<close>

definition connect_frame :: "string \<Rightarrow> parse_result" where
  "connect_frame p = Parsed (JObj [(''provider'', JStr p)])"

definition start_frame :: "string \<Rightarrow> parse_result" where
  "start_frame p = Parsed (JObj [(''type'', JStr ''start''), (''provider'', JStr p)])"

definition input_frame :: "string \<Rightarrow> parse_result" where
  "input_frame d = Parsed (JObj [(''type'', JStr ''input''), (''data'', JStr d)])"

subsection \<open>Reading frames and states\<close>

text \<open>
  \<open>is_connect m\<close>: the message passes the guard \<^verbatim>\<open>!type && provider\<close> of the first
  listener. \<open>is_input m\<close>: it passes the test \<^verbatim>\<open>inputData.type === 'input'\<close> of an input
  listener. \<open>flow m\<close> is its \<^verbatim>\<open>provider\<close>, \<open>payload m\<close> its \<^verbatim>\<open>data\<close>.
\<close>

definition is_connect :: "parse_result \<Rightarrow> bool" where
  "is_connect m =
     (case m of
        Malformed \<Rightarrow> False
      | Parsed d \<Rightarrow>
          d \<noteq> JNull \<and> \<not> truthy (property d ''type'') \<and> truthy (property d ''provider''))"

definition is_input :: "parse_result \<Rightarrow> bool" where
  "is_input m =
     (case m of
        Malformed \<Rightarrow> False
      | Parsed d \<Rightarrow> d \<noteq> JNull \<and> property d ''type'' = Some (JStr ''input''))"

definition flow :: "parse_result \<Rightarrow> json option" where
  "flow m = (case m of Malformed \<Rightarrow> None | Parsed d \<Rightarrow> property d ''provider'')"

definition payload :: "parse_result \<Rightarrow> json option" where
  "payload m = (case m of Malformed \<Rightarrow> None | Parsed d \<Rightarrow> property d ''data'')"

definition supported :: "json option \<Rightarrow> bool" where
  "supported v = (v = Some (JStr ''gpt'') \<or> v = Some (JStr ''qwen''))"

text \<open>
  \<open>is_launch e\<close>: the event is a connection message for one of the two providers the
  handler knows, the only event that reaches the launch.
\<close>

fun is_launch :: "event \<Rightarrow> bool" where
  "is_launch (Message m) = (is_connect m \<and> supported (flow m))"
| "is_launch e = False"

text \<open>The payloads of the input frames among the events, in arrival order.\<close>

fun input_payloads :: "event list \<Rightarrow> json option list" where
  "input_payloads [] = []"
| "input_payloads (Message m # es) =
     (if is_input m then payload m # input_payloads es else input_payloads es)"
| "input_payloads (e # es) = input_payloads es"

text \<open>What has been written to the input of process \<open>pid\<close>, in order.\<close>

definition writes_to :: "nat \<Rightarrow> conn \<Rightarrow> json option list" where
  "writes_to pid s = map snd (filter (\<lambda>w. fst w = pid) (writes s))"

text \<open>The processes of the connection that are pseudo-terminal shells.\<close>

definition shells :: "proc list \<Rightarrow> nat list" where
  "shells ps = filter (\<lambda>i. ps ! i = Shell) [0..<length ps]"

text \<open>The shells the input listeners write to, in registration order.\<close>

fun targets :: "nat option list \<Rightarrow> nat list" where
  "targets [] = []"
| "targets (None # ls) = targets ls"
| "targets (Some pid # ls) = pid # targets ls"

definition frames :: "conn \<Rightarrow> frame list" where
  "frames s = map snd (sends s)"

section \<open>Properties\<close>

text \<open>The equations that evaluate a run on concrete events.\<close>

lemmas bridge_eval =
  handleOAuthLogin_def handleOAuthLogin_message_def input_listener_def start_def launch_def
  launch_failed_def or_default_def onData_def onExit_def ws_send_def ws_close_def
  setTimeout_close_def console_error_def scriptPath_def connect_frame_def start_frame_def
  input_frame_def frames_def Let_def

subsection \<open>How a message passes through the listeners\<close>

lemma input_listener_writes:
  "input_listener m l s =
     s\<lparr>writes := writes s @ (if is_input m then map (\<lambda>pid. (pid, payload m)) (targets [l]) else [])\<rparr>"
  by (cases m; cases l) (simp_all add: input_listener_def is_input_def payload_def)

lemma fold_input_listener:
  "fold (input_listener m) ls s =
     s\<lparr>writes := writes s @ (if is_input m then map (\<lambda>pid. (pid, payload m)) (targets ls) else [])\<rparr>"
proof (induction ls arbitrary: s)
  case Nil
  show ?case by simp
next
  case (Cons l ls)
  have "fold (input_listener m) (l # ls) s = fold (input_listener m) ls (input_listener m l s)"
    by simp
  also have "\<dots> = (input_listener m l s)
      \<lparr>writes := writes (input_listener m l s) @
         (if is_input m then map (\<lambda>pid. (pid, payload m)) (targets ls) else [])\<rparr>"
    by (rule Cons.IH)
  also have "\<dots> = s\<lparr>writes := writes s @
         (if is_input m then map (\<lambda>pid. (pid, payload m)) (targets (l # ls)) else [])\<rparr>"
    by (cases l) (simp_all add: input_listener_writes)
  finally show ?case .
qed

lemma is_input_not_connect: "is_input m \<Longrightarrow> \<not> is_connect m"
  by (cases m) (auto simp: is_input_def is_connect_def)

subsection \<open>Malformed messages\<close>

text \<open>
  C8. A message that \<^verbatim>\<open>JSON.parse\<close> rejects is logged by the first listener and
  swallowed by every input listener: the step changes nothing but the console. No frame
  is sent, the socket state is untouched, no process is created and none is written to.
\<close>

theorem malformed_message_ignored:
  "step h (Message Malformed) s = s\<lparr>console := console s @ [LogHandlerError]\<rparr>"
  by (simp add: fold_input_listener is_input_def handleOAuthLogin_message_def console_error_def)

theorem malformed_message_ignored_witness:
  "sends (run unix_host handleOAuthLogin [Message Malformed]) = []
   \<and> readyState (run unix_host handleOAuthLogin [Message Malformed]) = OPEN
   \<and> procs (run unix_host handleOAuthLogin [Message Malformed]) = []"
  using malformed_message_ignored [of unix_host handleOAuthLogin]
  by (simp add: handleOAuthLogin_def)

subsection \<open>The upgrade path\<close>

text \<open>
  For a request whose URL parses, the handler routes only at the pathname
  \<^verbatim>\<open>/ws/oauth-login\<close> (and only when the handshake completes) and destroys the raw
  socket at every other pathname.
\<close>

lemma upgrade_parsed_pathname:
  "(setupWebSocket pathname handshake = Routed c \<longrightarrow>
      pathname = Some ''/ws/oauth-login'' \<and> handshake \<and> c = handleOAuthLogin)
   \<and> (p \<noteq> ''/ws/oauth-login'' \<longrightarrow> setupWebSocket (Some p) handshake = Destroyed)"
  by (cases pathname) (simp_all add: setupWebSocket_def OAUTH_PATH_def)

text \<open>
  C9. An upgrade request is refused by \<^verbatim>\<open>socket.destroy()\<close> at every path other than
  \<^verbatim>\<open>/ws/oauth-login\<close> only if its URL parses. For a request target that
  \<^verbatim>\<open>new URL\<close> rejects, such as \<^verbatim>\<open>//\<close>, the listener throws before it reaches either
  branch: the request is not routed, but the socket is not destroyed either, and the
  exception is caught nowhere.
\<close>

theorem upgrade_unparsed_url_uncaught:
  "setupWebSocket None True = Uncaught \<and> setupWebSocket None False = Uncaught
   \<and> setupWebSocket None True \<noteq> Destroyed"
  by (simp add: setupWebSocket_def)

subsection \<open>A second connection message\<close>

text \<open>
  C1. The source comments its guard with "only the first connection message is handled",
  but the guard tests the shape of the message, not whether a process exists: a second
  \<^verbatim>\<open>{"provider":"gpt"}\<close> on the same connection spawns a second shell and registers a
  second input listener, and an input frame is then written to both shells.
\<close>

theorem second_connect_spawns_second_process:
  "procs (run unix_host handleOAuthLogin
            [Message (connect_frame ''gpt''), Message (connect_frame ''gpt'')]) = [Shell, Shell]
   \<and> map via (spawns (run unix_host handleOAuthLogin
            [Message (connect_frame ''gpt''), Message (connect_frame ''gpt'')])) = [Pty, Pty]
   \<and> writes (run unix_host handleOAuthLogin
            [Message (connect_frame ''gpt''), Message (connect_frame ''gpt''),
             Message (input_frame ''y'')]) = [(0, Some (JStr ''y'')), (1, Some (JStr ''y''))]"
  by (simp add: bridge_eval unix_host_def)

subsection \<open>Process exit\<close>

text \<open>
  The printed exit code is a decimal numeral: a non-empty string of digits, after a minus
  sign for a negative code, that reads back as the code.
\<close>

lemma digit_char:
  assumes "k < 10"
  shows "is_digit (''0123456789'' ! k)" and "digit_val (''0123456789'' ! k) = k"
proof -
  from assms consider "k = 0" | "k = 1" | "k = 2" | "k = 3" | "k = 4" | "k = 5" | "k = 6"
    | "k = 7" | "k = 8" | "k = 9"
    by (auto simp: less_Suc_eq numeral_eq_Suc)
  then have "is_digit (''0123456789'' ! k) \<and> digit_val (''0123456789'' ! k) = k"
    by cases (simp_all add: is_digit_def digit_val_def)
  then show "is_digit (''0123456789'' ! k)" and "digit_val (''0123456789'' ! k) = k"
    by simp_all
qed

lemma decimal_val_snoc: "decimal_val (ds @ [c]) = 10 * decimal_val ds + digit_val c"
  by (simp add: decimal_val_def)

lemma nat_str_decimal:
  "nat_str n \<noteq> [] \<and> (\<forall>c \<in> set (nat_str n). is_digit c) \<and> decimal_val (nat_str n) = n"
proof (induction n rule: nat_str.induct)
  case (1 n)
  show ?case
  proof (cases "n < 10")
    case True
    then have "nat_str n = [''0123456789'' ! n]"
      by (simp add: nat_str.simps)
    with True digit_char [of n] show ?thesis
      by (simp add: decimal_val_def)
  next
    case False
    then have eq: "nat_str n = nat_str (n div 10) @ [''0123456789'' ! (n mod 10)]"
      by (subst nat_str.simps) simp
    have m: "n mod 10 < 10" by simp
    from 1 False have ih: "nat_str (n div 10) \<noteq> []"
      "\<forall>c \<in> set (nat_str (n div 10)). is_digit c"
      "decimal_val (nat_str (n div 10)) = n div 10"
      by simp_all
    show ?thesis
      using ih digit_char [OF m]
      by (simp add: eq decimal_val_snoc)
  qed
qed

lemma code_str_decimal:
  "\<exists>ds. code_str (Some n) = (if n < 0 then ''-'' else []) @ ds \<and> ds \<noteq> []
        \<and> (\<forall>c \<in> set ds. is_digit c) \<and> int (decimal_val ds) = \<bar>n\<bar>"
proof (cases "n < 0")
  case True
  with nat_str_decimal [of "nat (- n)"] show ?thesis
    by (auto simp: code_str_def)
next
  case False
  with nat_str_decimal [of "nat n"] show ?thesis
    by (auto simp: code_str_def)
qed

lemma exit_message_shape:
  "\<exists>tl. exit_message p code = MSG_CMD_FAILED @ code_str code @ '')'' @ tl
        \<and> (p = Shell \<longrightarrow> tl = [])
        \<and> (\<forall>m. p = Child (JsError (Some m)) \<longrightarrow> m \<noteq> [] \<longrightarrow> tl = MSG_PTY_FAILED @ m)"
proof (cases p)
  case Shell
  then show ?thesis by simp
next
  case (Child err)
  then show ?thesis by (cases err) auto
qed

lemma code_str_examples:
  "code_str (Some 0) = ''0''" "code_str (Some 137) = ''137''" "code_str (Some (- 1)) = ''-1''"
  "code_str None = ''null''"
  by (simp_all add: code_str_def nat_str.simps)

lemma onExit_open:
  "readyState s = OPEN \<Longrightarrow>
   onExit p code s =
     s\<lparr>sends := sends s @
          [(OPEN, if code = Some 0 then Success_frame MSG_LOGIN_OK
                  else Error_frame (exit_message p code))],
       timers := timers s @ [1000]\<rparr>"
  by (simp add: onExit_def ws_send_def setTimeout_close_def)

text \<open>
  C4. The exit notification of an attached process acts only while the socket is open;
  otherwise it sends nothing and schedules nothing. On an open socket it sends exactly
  one frame and schedules \<^verbatim>\<open>ws.close()\<close> after 1000 ms: the success frame for exit
  code 0; otherwise an error frame whose message is the fixed text, the exit code in
  decimal (\<^verbatim>\<open>null\<close> when there is none), a closing parenthesis and, for a process
  started in the \<^verbatim>\<open>catch (err)\<close> block with a non-empty \<^verbatim>\<open>err.message\<close>, the
  pty-failure text followed by that message. When the timer fires the socket is closing.
\<close>

theorem exit_code_terminal_frame:
  assumes "pid < length (procs s)"
  shows "(readyState s \<noteq> OPEN \<longrightarrow> step h (ProcExit pid code) s = s)
     \<and> (readyState s = OPEN \<longrightarrow>
          (\<exists>f. step h (ProcExit pid code) s =
                 s\<lparr>sends := sends s @ [(OPEN, f)], timers := timers s @ [1000]\<rparr>
             \<and> (code = Some 0 \<longrightarrow> f = Success_frame MSG_LOGIN_OK)
             \<and> (code \<noteq> Some 0 \<longrightarrow>
                  (\<exists>r tl. f = Error_frame (MSG_CMD_FAILED @ r @ '')'' @ tl)
                     \<and> (\<forall>n. code = Some n \<longrightarrow>
                           (\<exists>ds. r = (if n < 0 then ''-'' else []) @ ds \<and> ds \<noteq> []
                              \<and> (\<forall>c \<in> set ds. is_digit c) \<and> int (decimal_val ds) = \<bar>n\<bar>))
                     \<and> (code = None \<longrightarrow> r = ''null'')
                     \<and> (procs s ! pid = Shell \<longrightarrow> tl = [])
                     \<and> (\<forall>m. procs s ! pid = Child (JsError (Some m)) \<longrightarrow> m \<noteq> [] \<longrightarrow>
                           tl = MSG_PTY_FAILED @ m)))
             \<and> (timers s = [] \<longrightarrow>
                  readyState (step h TimerFires (step h (ProcExit pid code) s)) = CLOSING)))"
proof (intro conjI impI)
  assume "readyState s \<noteq> OPEN"
  with assms show "step h (ProcExit pid code) s = s"
    by (simp add: onExit_def)
next
  assume op: "readyState s = OPEN"
  let ?p = "procs s ! pid"
  let ?f = "if code = Some 0 then Success_frame MSG_LOGIN_OK
            else Error_frame (exit_message ?p code)"
  have st: "step h (ProcExit pid code) s =
      s\<lparr>sends := sends s @ [(OPEN, ?f)], timers := timers s @ [1000]\<rparr>"
    using assms op by (simp add: onExit_open)
  have ok: "code = Some 0 \<longrightarrow> ?f = Success_frame MSG_LOGIN_OK"
    by simp
  obtain tl where tl: "exit_message ?p code = MSG_CMD_FAILED @ code_str code @ '')'' @ tl"
      "?p = Shell \<longrightarrow> tl = []"
      "\<forall>m. ?p = Child (JsError (Some m)) \<longrightarrow> m \<noteq> [] \<longrightarrow> tl = MSG_PTY_FAILED @ m"
    using exit_message_shape [of ?p code] by blast
  have num: "\<forall>n. code = Some n \<longrightarrow>
      (\<exists>ds. code_str code = (if n < 0 then ''-'' else []) @ ds \<and> ds \<noteq> []
         \<and> (\<forall>c \<in> set ds. is_digit c) \<and> int (decimal_val ds) = \<bar>n\<bar>)"
    using code_str_decimal by blast
  have null: "code = None \<longrightarrow> code_str code = ''null''"
    by (simp add: code_str_def)
  have bad: "code \<noteq> Some 0 \<longrightarrow>
      (\<exists>r tl. ?f = Error_frame (MSG_CMD_FAILED @ r @ '')'' @ tl)
         \<and> (\<forall>n. code = Some n \<longrightarrow>
               (\<exists>ds. r = (if n < 0 then ''-'' else []) @ ds \<and> ds \<noteq> []
                  \<and> (\<forall>c \<in> set ds. is_digit c) \<and> int (decimal_val ds) = \<bar>n\<bar>))
         \<and> (code = None \<longrightarrow> r = ''null'')
         \<and> (?p = Shell \<longrightarrow> tl = [])
         \<and> (\<forall>m. ?p = Child (JsError (Some m)) \<longrightarrow> m \<noteq> [] \<longrightarrow> tl = MSG_PTY_FAILED @ m))"
  proof
    assume "code \<noteq> Some 0"
    then have "?f = Error_frame (MSG_CMD_FAILED @ code_str code @ '')'' @ tl)"
      using tl(1) by simp
    with num null tl(2,3) show "\<exists>r tl. ?f = Error_frame (MSG_CMD_FAILED @ r @ '')'' @ tl)
         \<and> (\<forall>n. code = Some n \<longrightarrow>
               (\<exists>ds. r = (if n < 0 then ''-'' else []) @ ds \<and> ds \<noteq> []
                  \<and> (\<forall>c \<in> set ds. is_digit c) \<and> int (decimal_val ds) = \<bar>n\<bar>))
         \<and> (code = None \<longrightarrow> r = ''null'')
         \<and> (?p = Shell \<longrightarrow> tl = [])
         \<and> (\<forall>m. ?p = Child (JsError (Some m)) \<longrightarrow> m \<noteq> [] \<longrightarrow> tl = MSG_PTY_FAILED @ m)"
      by blast
  qed
  have tm: "timers s = [] \<longrightarrow>
      readyState (step h TimerFires (step h (ProcExit pid code) s)) = CLOSING"
  proof
    assume "timers s = []"
    then have "step h TimerFires (step h (ProcExit pid code) s) =
        ws_close (s\<lparr>sends := sends s @ [(OPEN, ?f)], timers := []\<rparr>)"
      by (simp only: st) simp
    then show "readyState (step h TimerFires (step h (ProcExit pid code) s)) = CLOSING"
      using op by (simp add: ws_close_def)
  qed
  from st ok bad tm
  show "\<exists>f. step h (ProcExit pid code) s =
                 s\<lparr>sends := sends s @ [(OPEN, f)], timers := timers s @ [1000]\<rparr>
             \<and> (code = Some 0 \<longrightarrow> f = Success_frame MSG_LOGIN_OK)
             \<and> (code \<noteq> Some 0 \<longrightarrow>
                  (\<exists>r tl. f = Error_frame (MSG_CMD_FAILED @ r @ '')'' @ tl)
                     \<and> (\<forall>n. code = Some n \<longrightarrow>
                           (\<exists>ds. r = (if n < 0 then ''-'' else []) @ ds \<and> ds \<noteq> []
                              \<and> (\<forall>c \<in> set ds. is_digit c) \<and> int (decimal_val ds) = \<bar>n\<bar>))
                     \<and> (code = None \<longrightarrow> r = ''null'')
                     \<and> (procs s ! pid = Shell \<longrightarrow> tl = [])
                     \<and> (\<forall>m. procs s ! pid = Child (JsError (Some m)) \<longrightarrow> m \<noteq> [] \<longrightarrow>
                           tl = MSG_PTY_FAILED @ m)))
             \<and> (timers s = [] \<longrightarrow>
                  readyState (step h TimerFires (step h (ProcExit pid code) s)) = CLOSING)"
    by blast
qed

theorem exit_code_terminal_frame_witness:
  "frames (run unix_host handleOAuthLogin
        [Message (connect_frame ''qwen''), ProcExit 0 (Some 0)])
       = [Success_frame MSG_LOGIN_OK]
   \<and> frames (run unix_host handleOAuthLogin
        [Message (connect_frame ''qwen''), ProcExit 0 (Some 1)])
       = [Error_frame (MSG_CMD_FAILED @ ''1)'')]
   \<and> frames (run no_pty_host handleOAuthLogin
        [Message (connect_frame ''qwen''), ProcExit 0 (Some 137)])
       = [Error_frame (MSG_CMD_FAILED @ ''137)'' @ MSG_PTY_FAILED @ ''forkpty(3) failed.'')]
   \<and> timers (run no_pty_host handleOAuthLogin
        [Message (connect_frame ''qwen''), ProcExit 0 (Some 137)]) = [1000]
   \<and> decimal_val ''137'' = 137"
  using
    exit_code_terminal_frame
      [of 0 "run unix_host handleOAuthLogin [Message (connect_frame ''qwen'')]" unix_host "Some 0"]
    exit_code_terminal_frame
      [of 0 "run unix_host handleOAuthLogin [Message (connect_frame ''qwen'')]" unix_host "Some 1"]
    exit_code_terminal_frame
      [of 0 "run no_pty_host handleOAuthLogin [Message (connect_frame ''qwen'')]" no_pty_host
        "Some 137"]
  by (simp add: bridge_eval unix_host_def no_pty_host_def code_str_def nat_str.simps
      decimal_val_def digit_val_def)

text \<open>
  When the socket has closed before the process exits, an exit with code 0 sends no
  success frame and schedules no closure.
\<close>

theorem exit_after_close_counterexample:
  "sends (run unix_host handleOAuthLogin
      [Message (connect_frame ''qwen''), SocketClosed, ProcExit 0 (Some 0)]) = []
   \<and> timers (run unix_host handleOAuthLogin
      [Message (connect_frame ''qwen''), SocketClosed, ProcExit 0 (Some 0)]) = []
   \<and> readyState (run unix_host handleOAuthLogin
      [Message (connect_frame ''qwen''), SocketClosed, ProcExit 0 (Some 0)]) = CLOSED"
  by (simp add: bridge_eval unix_host_def)

subsection \<open>Which frames a step can send\<close>

lemma launch_keeps:
  "sends (snd (launch h c s)) = sends s"
  "readyState (snd (launch h c s)) = readyState s"
  "timers (snd (launch h c s)) = timers s"
  "writes (snd (launch h c s)) = writes s"
  by (simp_all add: launch_def Let_def split: option.splits)

lemma launch_failed_sends:
  "sends (launch_failed e s) = sends s @ [(readyState s, Error_frame (MSG_LAUNCH_FAILED @ message_str e))]"
  by (simp add: launch_failed_def ws_close_def ws_send_def)

lemma start_sends:
  "sends (start h c s) = sends s \<or>
   (\<exists>e. sends (start h c s) =
      sends s @ [(readyState s, Error_frame (MSG_LAUNCH_FAILED @ message_str e))])"
proof -
  obtain r s' where L: "launch h c s = (r, s')"
    by (cases "launch h c s")
  have k: "sends s' = sends s" "readyState s' = readyState s"
    using launch_keeps [of h c s] L by simp_all
  show ?thesis
  proof (cases r)
    case None
    then show ?thesis by (simp add: start_def L k)
  next
    case (Some e)
    then have "sends (start h c s) =
        sends s @ [(readyState s, Error_frame (MSG_LAUNCH_FAILED @ message_str e))]"
      by (simp add: start_def L k launch_failed_sends)
    then show ?thesis by blast
  qed
qed

lemma handle_message_sends:
  "sends (handleOAuthLogin_message h m s) = sends s
   \<or> sends (handleOAuthLogin_message h m s) = sends s @ [(readyState s, Error_frame MSG_UNSUPPORTED)]
   \<or> (\<exists>e. sends (handleOAuthLogin_message h m s) =
        sends s @ [(readyState s, Error_frame (MSG_LAUNCH_FAILED @ message_str e))])"
proof (cases m)
  case Malformed
  then show ?thesis by (simp add: handleOAuthLogin_message_def console_error_def)
next
  case (Parsed d)
  show ?thesis
  proof (cases "is_connect m")
    case False
    with Parsed show ?thesis
      by (auto simp: handleOAuthLogin_message_def is_connect_def console_error_def Let_def)
  next
    case True
    with Parsed have g: "d \<noteq> JNull" "\<not> truthy (property d ''type'')" "truthy (property d ''provider'')"
      by (simp_all add: is_connect_def)
    show ?thesis
    proof (cases "import_node_pty h")
      case (Some e)
      with Parsed g have "sends (handleOAuthLogin_message h m s) =
          sends s @ [(readyState s, Error_frame (MSG_LAUNCH_FAILED @ message_str e))]"
        by (simp add: handleOAuthLogin_message_def launch_failed_sends)
      then show ?thesis by blast
    next
      case None
      with Parsed g show ?thesis
        using start_sends [of h CMD_GPT s] start_sends [of h CMD_QWEN s]
        by (auto simp add: handleOAuthLogin_message_def ws_send_def Let_def)
    qed
  qed
qed

lemma step_sends:
  assumes "(st, f) \<in> set (sends (step h e s))"
  shows "(st, f) \<in> set (sends s)
     \<or> (st = readyState s \<and> (f = Error_frame MSG_UNSUPPORTED
            \<or> (\<exists>x. f = Error_frame (MSG_LAUNCH_FAILED @ message_str x))))
     \<or> (st = OPEN \<and> ((\<exists>d. f = Output_frame d) \<or> f = Success_frame MSG_LOGIN_OK
            \<or> (\<exists>p c. f = Error_frame (exit_message p c))))"
proof (cases e)
  case (Message m)
  have "sends (step h e s) = sends (handleOAuthLogin_message h m s)"
    by (simp add: Message fold_input_listener)
  with assms handle_message_sends [of h m s] show ?thesis
    by auto
next
  case (ProcData pid d)
  with assms show ?thesis
    by (auto simp: onData_def ws_send_def split: if_splits)
next
  case (ProcExit pid code)
  with assms show ?thesis
    by (auto simp: onExit_def ws_send_def setTimeout_close_def split: if_splits)
next
  case TimerFires
  with assms show ?thesis
    by (auto simp: ws_close_def split: list.splits if_splits)
next
  case SocketClosed
  with assms show ?thesis by simp
next
  case SocketError
  with assms show ?thesis by simp
next
  case (ChildError pid x)
  with assms show ?thesis by (auto split: if_splits proc.splits)
qed

lemma exit_message_not_handler_text:
  "exit_message p c \<noteq> MSG_UNSUPPORTED"
  "exit_message p c \<noteq> MSG_LAUNCH_FAILED @ x"
  "exit_message p c \<noteq> MSG_NO_PROVIDER"
proof -
  obtain t where t: "exit_message p c = CHR 0xE5 # CHR 0x91 # t"
    by (cases p) (simp_all add: MSG_CMD_FAILED_def)
  show "exit_message p c \<noteq> MSG_UNSUPPORTED"
    by (simp add: t MSG_UNSUPPORTED_def)
  show "exit_message p c \<noteq> MSG_LAUNCH_FAILED @ x"
    by (simp add: t MSG_LAUNCH_FAILED_def)
  show "exit_message p c \<noteq> MSG_NO_PROVIDER"
    by (simp add: t MSG_NO_PROVIDER_def)
qed

lemma handler_text_not_no_provider:
  "MSG_UNSUPPORTED \<noteq> MSG_NO_PROVIDER"
  "MSG_LAUNCH_FAILED @ x \<noteq> MSG_NO_PROVIDER"
  by (simp_all add: MSG_UNSUPPORTED_def MSG_LAUNCH_FAILED_def MSG_NO_PROVIDER_def)

subsection \<open>Liveness checks before sending\<close>

lemma run_sends_live:
  assumes "\<And>st f. (st, f) \<in> set (sends s) \<Longrightarrow>
             st = OPEN \<or> f = Error_frame MSG_UNSUPPORTED
             \<or> (\<exists>x. f = Error_frame (MSG_LAUNCH_FAILED @ message_str x))"
    and "(st, f) \<in> set (sends (run h s es))"
  shows "st = OPEN \<or> f = Error_frame MSG_UNSUPPORTED
             \<or> (\<exists>x. f = Error_frame (MSG_LAUNCH_FAILED @ message_str x))"
  using assms
proof (induction es arbitrary: s)
  case Nil
  then show ?case by simp
next
  case (Cons e es)
  have "st' = OPEN \<or> f' = Error_frame MSG_UNSUPPORTED
             \<or> (\<exists>x. f' = Error_frame (MSG_LAUNCH_FAILED @ message_str x))"
    if "(st', f') \<in> set (sends (step h e s))" for st' f'
  proof -
    from step_sends [OF that] consider
        (old) "(st', f') \<in> set (sends s)"
      | (handler) "f' = Error_frame MSG_UNSUPPORTED
            \<or> (\<exists>x. f' = Error_frame (MSG_LAUNCH_FAILED @ message_str x))"
      | (relay) "st' = OPEN"
      by blast
    then show ?thesis
    proof cases
      case old
      then show ?thesis by (rule Cons.prems(1))
    next
      case handler
      then show ?thesis by blast
    next
      case relay
      then show ?thesis by blast
    qed
  qed
  moreover have "(st, f) \<in> set (sends (run h (step h e s) es))"
    using Cons.prems(2) by simp
  ultimately show ?case
    by (rule Cons.IH)
qed

text \<open>
  C5. The callbacks of the process (output, exit) test \<^verbatim>\<open>ws.readyState === ws.OPEN\<close>
  before they send, so every output frame, every success frame and every exit-code
  error frame was sent on an open socket. The two error frames the message handler
  sends (unsupported provider, launch failure) are sent without that test; they are the
  only frames that can be sent on a socket that is no longer open.
\<close>

theorem relayed_frames_sent_only_when_open:
  assumes "(st, f) \<in> set (sends (run h handleOAuthLogin es))"
  shows "(st = OPEN \<or> f = Error_frame MSG_UNSUPPORTED
            \<or> (\<exists>x. f = Error_frame (MSG_LAUNCH_FAILED @ message_str x)))
     \<and> ((\<exists>d. f = Output_frame d) \<or> (\<exists>t. f = Success_frame t)
            \<or> (\<exists>p c. f = Error_frame (exit_message p c)) \<longrightarrow> st = OPEN)"
proof -
  have "(st', f') \<notin> set (sends handleOAuthLogin)" for st' f'
    by (simp add: handleOAuthLogin_def)
  then have a: "st = OPEN \<or> f = Error_frame MSG_UNSUPPORTED
            \<or> (\<exists>x. f = Error_frame (MSG_LAUNCH_FAILED @ message_str x))"
    using assms run_sends_live [of handleOAuthLogin st f h es] by blast
  have "st = OPEN" if "\<exists>d. f = Output_frame d" using a that by auto
  moreover have "st = OPEN" if "\<exists>t. f = Success_frame t" using a that by auto
  moreover have "st = OPEN" if "\<exists>p c. f = Error_frame (exit_message p c)"
    using a that exit_message_not_handler_text(1,2) by force
  ultimately show ?thesis using a by blast
qed

theorem relayed_frames_sent_only_when_open_witness:
  "sends (run unix_host handleOAuthLogin
      [Message (connect_frame ''qwen''), ProcData 0 ''scan QR'', SocketClosed,
       ProcData 0 ''late'', ProcExit 0 (Some 0)]) = [(OPEN, Output_frame ''scan QR'')]"
  using relayed_frames_sent_only_when_open [of OPEN "Output_frame ''scan QR''" unix_host
      "[Message (connect_frame ''qwen''), ProcData 0 ''scan QR'', SocketClosed,
        ProcData 0 ''late'', ProcExit 0 (Some 0)]"]
  by (simp add: bridge_eval unix_host_def)

text \<open>
  Not every send is guarded: after the exit timer has called \<^verbatim>\<open>ws.close()\<close> the
  socket is closing, and a connection message with an unknown provider is answered by
  \<^verbatim>\<open>ws.send\<close> all the same.
\<close>

theorem send_without_liveness_check_counterexample:
  "(CLOSING, Error_frame MSG_UNSUPPORTED) \<in> set (sends (run unix_host handleOAuthLogin
      [Message (connect_frame ''qwen''), ProcExit 0 (Some 0), TimerFires,
       Message (connect_frame ''claude'')]))"
  by (simp add: bridge_eval unix_host_def)

subsection \<open>The missing-provider branch\<close>

lemma run_no_missing_provider:
  assumes "\<And>st. (st, Error_frame MSG_NO_PROVIDER) \<notin> set (sends s)"
  shows "(st, Error_frame MSG_NO_PROVIDER) \<notin> set (sends (run h s es))"
  using assms
proof (induction es arbitrary: s)
  case Nil
  then show ?case by simp
next
  case (Cons e es)
  have "(st', Error_frame MSG_NO_PROVIDER) \<notin> set (sends (step h e s))" for st'
  proof
    assume "(st', Error_frame MSG_NO_PROVIDER) \<in> set (sends (step h e s))"
    from step_sends [OF this] consider
        (old) "(st', Error_frame MSG_NO_PROVIDER) \<in> set (sends s)"
      | (unsupported) "MSG_NO_PROVIDER = MSG_UNSUPPORTED"
      | (launch) x where "MSG_NO_PROVIDER = MSG_LAUNCH_FAILED @ message_str x"
      | (exit) p c where "MSG_NO_PROVIDER = exit_message p c"
      by auto
    then show False
    proof cases
      case old
      then show False using Cons.prems by blast
    next
      case unsupported
      then show False using handler_text_not_no_provider(1) by simp
    next
      case launch
      then show False using handler_text_not_no_provider(2) [of "message_str x"] by simp
    next
      case exit
      then show False using exit_message_not_handler_text(3) [of p c] by simp
    qed
  qed
  then have "(st, Error_frame MSG_NO_PROVIDER) \<notin> set (sends (run h (step h e s) es))"
    by (rule Cons.IH)
  then show ?case by simp
qed

text \<open>
  C10. The frame of the inner \<^verbatim>\<open>if (!provider)\<close> branch is never sent: whatever the host
  and whatever events arrive, no call of \<^verbatim>\<open>ws.send\<close> carries it. The branch sits under
  the guard \<^verbatim>\<open>!type && provider\<close>, which already requires a truthy provider.
\<close>

theorem missing_provider_frame_never_sent:
  "(st, Error_frame MSG_NO_PROVIDER) \<notin> set (sends (run h handleOAuthLogin es))"
proof (rule run_no_missing_provider)
  show "(st', Error_frame MSG_NO_PROVIDER) \<notin> set (sends handleOAuthLogin)" for st'
    by (simp add: handleOAuthLogin_def)
qed

theorem missing_provider_frame_never_sent_witness:
  "(OPEN, Error_frame MSG_NO_PROVIDER) \<notin> set (sends (run unix_host handleOAuthLogin
      [Message (Parsed (JObj [])), Message (Parsed (JObj [(''provider'', JStr [])])),
       Message (Parsed (JObj [(''provider'', JNull)]))]))"
  using missing_provider_frame_never_sent [of OPEN unix_host
      "[Message (Parsed (JObj [])), Message (Parsed (JObj [(''provider'', JStr [])])),
        Message (Parsed (JObj [(''provider'', JNull)]))]"]
  by simp

subsection \<open>Spawn strategies\<close>

lemma start_spawns:
  assumes "c \<in> set (spawns (start h command s))"
  shows "c \<in> set (spawns s)
     \<or> (via c = Pty \<and> spawn_file c = or_default (env_SHELL h) ''/bin/sh'')
     \<or> (via c = Script \<and> spawn_file c = ''/usr/bin/script'')"
  using assms
  by (auto simp: start_def launch_def launch_failed_def ws_send_def ws_close_def scriptPath_def
      Let_def split: option.splits if_splits)

lemma handle_message_spawns:
  assumes "c \<in> set (spawns (handleOAuthLogin_message h m s))"
  shows "c \<in> set (spawns s)
     \<or> (via c = Pty \<and> spawn_file c = or_default (env_SHELL h) ''/bin/sh'')
     \<or> (via c = Script \<and> spawn_file c = ''/usr/bin/script'')"
proof (cases m)
  case Malformed
  with assms show ?thesis
    by (simp add: handleOAuthLogin_message_def console_error_def)
next
  case (Parsed d)
  with assms start_spawns [of c h CMD_GPT s] start_spawns [of c h CMD_QWEN s]
  show ?thesis
    by (auto simp: handleOAuthLogin_message_def console_error_def launch_failed_def
        ws_send_def ws_close_def Let_def split: option.splits if_splits)
qed

lemma step_spawns:
  assumes "c \<in> set (spawns (step h e s))"
  shows "c \<in> set (spawns s)
     \<or> (via c = Pty \<and> spawn_file c = or_default (env_SHELL h) ''/bin/sh'')
     \<or> (via c = Script \<and> spawn_file c = ''/usr/bin/script'')"
proof (cases e)
  case (Message m)
  with assms handle_message_spawns [of c h m s] show ?thesis
    by (simp add: fold_input_listener)
next
  case (ProcData pid d)
  with assms show ?thesis by (simp add: onData_def ws_send_def split: if_splits)
next
  case (ProcExit pid code)
  with assms show ?thesis
    by (simp add: onExit_def ws_send_def setTimeout_close_def split: if_splits)
next
  case TimerFires
  with assms show ?thesis by (simp add: ws_close_def split: list.splits if_splits)
next
  case SocketClosed
  with assms show ?thesis by simp
next
  case SocketError
  with assms show ?thesis by simp
next
  case (ChildError pid x)
  with assms show ?thesis by (simp split: if_splits proc.splits)
qed

lemma run_spawns:
  assumes "c \<in> set (spawns (run h s es))"
  shows "c \<in> set (spawns s)
     \<or> (via c = Pty \<and> spawn_file c = or_default (env_SHELL h) ''/bin/sh'')
     \<or> (via c = Script \<and> spawn_file c = ''/usr/bin/script'')"
  using assms
proof (induction es arbitrary: s)
  case Nil
  then show ?case by simp
next
  case (Cons e es)
  then have "c \<in> set (spawns (run h (step h e s) es))" by simp
  from Cons.IH [OF this] step_spawns [of c h e s] show ?case by blast
qed

text \<open>
  C6. A launch calls \<^verbatim>\<open>pty.spawn\<close> on the shell with \<^verbatim>\<open>-lc\<close> and the command first
  and, only when that throws, \<^verbatim>\<open>child_process.spawn\<close> on \<^verbatim>\<open>/usr/bin/script\<close> with
  \<^verbatim>\<open>-q /dev/null\<close>, the shell, \<^verbatim>\<open>-lc\<close> and the command. There is no further
  strategy. When the first call returns, a shell is attached; when the second returns, a
  child is attached; when the second throws as well, no process is attached, one
  launch-failure frame is sent and \<^verbatim>\<open>ws.close()\<close> is called. Over the whole life of a
  connection every spawn call is one of these two: the command is never spawned on
  plain pipes.
\<close>

theorem launch_strategies:
  "map (\<lambda>c. (via c, spawn_file c, spawn_args c))
       (drop (length (spawns s)) (spawns (start h command s))) =
     (if pty_spawn h = None
      then [(Pty, or_default (env_SHELL h) ''/bin/sh'', [''-lc'', command])]
      else [(Pty, or_default (env_SHELL h) ''/bin/sh'', [''-lc'', command]),
            (Script, ''/usr/bin/script'',
             [''-q'', ''/dev/null'', or_default (env_SHELL h) ''/bin/sh'', ''-lc'', command])])
   \<and> procs (start h command s) =
       procs s @
         (case pty_spawn h of
            None \<Rightarrow> [Shell]
          | Some err \<Rightarrow> (case child_spawn h of None \<Rightarrow> [Child err] | Some x \<Rightarrow> []))
   \<and> sends (start h command s) =
       sends s @
         (case pty_spawn h of
            None \<Rightarrow> []
          | Some err \<Rightarrow>
              (case child_spawn h of
                 None \<Rightarrow> []
               | Some x \<Rightarrow> [(readyState s, Error_frame (MSG_LAUNCH_FAILED @ message_str x))]))
   \<and> readyState (start h command s) =
       (case pty_spawn h of
          None \<Rightarrow> readyState s
        | Some err \<Rightarrow>
            (case child_spawn h of
               None \<Rightarrow> readyState s
             | Some x \<Rightarrow> if readyState s = OPEN then CLOSING else readyState s))
   \<and> (\<forall>c \<in> set (spawns (run h handleOAuthLogin es)).
         (via c = Pty \<and> spawn_file c = or_default (env_SHELL h) ''/bin/sh'')
         \<or> (via c = Script \<and> spawn_file c = ''/usr/bin/script''))"
proof -
  have a: "map (\<lambda>c. (via c, spawn_file c, spawn_args c))
       (drop (length (spawns s)) (spawns (start h command s))) =
     (if pty_spawn h = None
      then [(Pty, or_default (env_SHELL h) ''/bin/sh'', [''-lc'', command])]
      else [(Pty, or_default (env_SHELL h) ''/bin/sh'', [''-lc'', command]),
            (Script, ''/usr/bin/script'',
             [''-q'', ''/dev/null'', or_default (env_SHELL h) ''/bin/sh'', ''-lc'', command])])"
    by (simp add: start_def launch_def launch_failed_def ws_send_def ws_close_def
        scriptPath_def Let_def split: option.splits)
  have b: "procs (start h command s) =
       procs s @
         (case pty_spawn h of
            None \<Rightarrow> [Shell]
          | Some err \<Rightarrow> (case child_spawn h of None \<Rightarrow> [Child err] | Some x \<Rightarrow> []))"
    by (simp add: start_def launch_def launch_failed_def ws_send_def ws_close_def
        Let_def split: option.splits)
  have c: "sends (start h command s) =
       sends s @
         (case pty_spawn h of
            None \<Rightarrow> []
          | Some err \<Rightarrow>
              (case child_spawn h of
                 None \<Rightarrow> []
               | Some x \<Rightarrow> [(readyState s, Error_frame (MSG_LAUNCH_FAILED @ message_str x))]))"
    by (simp add: start_def launch_def launch_failed_def ws_send_def ws_close_def
        Let_def split: option.splits)
  have d: "readyState (start h command s) =
       (case pty_spawn h of
          None \<Rightarrow> readyState s
        | Some err \<Rightarrow>
            (case child_spawn h of
               None \<Rightarrow> readyState s
             | Some x \<Rightarrow> if readyState s = OPEN then CLOSING else readyState s))"
    by (simp add: start_def launch_def launch_failed_def ws_send_def ws_close_def
        Let_def split: option.splits)
  have e: "\<forall>c \<in> set (spawns (run h handleOAuthLogin es)).
         (via c = Pty \<and> spawn_file c = or_default (env_SHELL h) ''/bin/sh'')
         \<or> (via c = Script \<and> spawn_file c = ''/usr/bin/script'')"
  proof
    fix c assume "c \<in> set (spawns (run h handleOAuthLogin es))"
    from run_spawns [OF this] show "(via c = Pty \<and> spawn_file c = or_default (env_SHELL h) ''/bin/sh'')
         \<or> (via c = Script \<and> spawn_file c = ''/usr/bin/script'')"
      by (simp add: handleOAuthLogin_def)
  qed
  from a b c d e show ?thesis by (intro conjI)
qed

theorem launch_strategies_witness:
  "map spawn_file (spawns (start unix_host CMD_QWEN handleOAuthLogin)) = [''/bin/bash'']
   \<and> map spawn_file (spawns (start no_pty_host CMD_QWEN handleOAuthLogin))
     = [''/bin/bash'', ''/usr/bin/script'']
   \<and> procs (start no_pty_host CMD_QWEN handleOAuthLogin)
     = [Child (JsError (Some ''forkpty(3) failed.''))]
   \<and> sends (start no_tty_host CMD_QWEN handleOAuthLogin)
     = [(OPEN, Error_frame (MSG_LAUNCH_FAILED @ ''spawn ENOMEM''))]
   \<and> readyState (start no_tty_host CMD_QWEN handleOAuthLogin) = CLOSING
   \<and> procs (start no_tty_host CMD_QWEN handleOAuthLogin) = []"
  using launch_strategies [of handleOAuthLogin unix_host CMD_QWEN "[]"]
    launch_strategies [of handleOAuthLogin no_pty_host CMD_QWEN "[]"]
    launch_strategies [of handleOAuthLogin no_tty_host CMD_QWEN "[]"]
  by (simp add: bridge_eval no_tty_host_def no_pty_host_def unix_host_def)

text \<open>
  The plain spawn of the earlier \<^verbatim>\<open>index.ts\<close> form is dead code: the tested path is a
  non-empty constant.
\<close>

lemma index_ts_fallback_is_wrapper:
  "index_ts_fallback fallbackFile fallbackArgs =
     (''/usr/bin/script'', [''-q'', ''/dev/null'', fallbackFile] @ fallbackArgs)"
  by (simp add: index_ts_fallback_def scriptPath_def)

text \<open>
  On a host where the pseudo-terminal is missing and the wrapper spawn throws, the
  command is not run on plain pipes: the two calls are all there is, the client gets the
  launch-failure frame and the socket is closed. Where the wrapper spawn returns and the
  file then turns out not to be executable, the child's \<^verbatim>\<open>error\<close> event is caught by
  nobody and no third spawn follows either.
\<close>

theorem no_plain_spawn_counterexample:
  "map spawn_file (spawns (run no_tty_host handleOAuthLogin [Message (connect_frame ''gpt'')]))
     = [''/bin/bash'', ''/usr/bin/script'']
   \<and> procs (run no_tty_host handleOAuthLogin [Message (connect_frame ''gpt'')]) = []
   \<and> sends (run no_tty_host handleOAuthLogin [Message (connect_frame ''gpt'')])
     = [(OPEN, Error_frame (MSG_LAUNCH_FAILED @ ''spawn ENOMEM''))]
   \<and> readyState (run no_tty_host handleOAuthLogin [Message (connect_frame ''gpt'')]) = CLOSING
   \<and> map spawn_file (spawns (run no_pty_host handleOAuthLogin
        [Message (connect_frame ''gpt''),
         ChildError 0 (JsError (Some ''spawn /usr/bin/script ENOENT''))]))
     = [''/bin/bash'', ''/usr/bin/script'']
   \<and> uncaught (run no_pty_host handleOAuthLogin
        [Message (connect_frame ''gpt''),
         ChildError 0 (JsError (Some ''spawn /usr/bin/script ENOENT''))])
     = [JsError (Some ''spawn /usr/bin/script ENOENT'')]"
  by (simp add: bridge_eval no_tty_host_def no_pty_host_def unix_host_def)

subsection \<open>Unsupported providers\<close>

lemma connect_unsupported:
  assumes "import_node_pty h = None" and "is_connect m" and "\<not> supported (flow m)"
  shows "step h (Message m) s = ws_send (Error_frame MSG_UNSUPPORTED) s"
proof -
  obtain d where d: "m = Parsed d"
    using assms(2) by (cases m) (simp_all add: is_connect_def)
  have "\<not> is_input m"
    using assms(2) is_input_not_connect by blast
  moreover have "handleOAuthLogin_message h m s = ws_send (Error_frame MSG_UNSUPPORTED) s"
    using assms by (simp add: d handleOAuthLogin_message_def is_connect_def supported_def
        flow_def Let_def)
  ultimately show ?thesis
    by (simp add: fold_input_listener ws_send_def)
qed

lemma connect_import_fails:
  assumes "import_node_pty h = Some x" and "is_connect m"
  shows "step h (Message m) s = launch_failed x s"
proof -
  obtain d where d: "m = Parsed d"
    using assms(2) by (cases m) (simp_all add: is_connect_def)
  have "\<not> is_input m"
    using assms(2) is_input_not_connect by blast
  moreover have "handleOAuthLogin_message h m s = launch_failed x s"
    using assms by (simp add: d handleOAuthLogin_message_def is_connect_def Let_def)
  ultimately show ?thesis
    by (simp add: fold_input_listener launch_failed_def ws_send_def ws_close_def)
qed

lemma step_without_process:
  assumes "\<not> is_launch e" and "procs s = []"
  shows "procs (step h e s) = []
     \<and> (\<exists>fs. frames (step h e s) = frames s @ fs
           \<and> (\<forall>f \<in> set fs.
                 (import_node_pty h = None \<and> f = Error_frame MSG_UNSUPPORTED)
                 \<or> (\<exists>x. import_node_pty h = Some x
                        \<and> f = Error_frame (MSG_LAUNCH_FAILED @ message_str x))))"
proof (cases e)
  case (Message m)
  show ?thesis
  proof (cases "is_connect m")
    case True
    with assms(1) Message have ns: "\<not> supported (flow m)" by simp
    show ?thesis
    proof (cases "import_node_pty h")
      case None
      from connect_unsupported [OF None True ns] Message assms(2) None
      show ?thesis by (simp add: ws_send_def frames_def)
    next
      case (Some x)
      from connect_import_fails [OF Some True] Message assms(2) Some
      show ?thesis by (simp add: launch_failed_def ws_send_def ws_close_def frames_def)
    qed
  next
    case False
    have "procs (handleOAuthLogin_message h m s) = procs s
        \<and> sends (handleOAuthLogin_message h m s) = sends s"
      using False by (cases m)
        (auto simp: handleOAuthLogin_message_def is_connect_def console_error_def Let_def)
    with Message assms(2) show ?thesis
      by (simp add: fold_input_listener frames_def)
  qed
next
  case (ProcData pid d)
  with assms(2) show ?thesis by simp
next
  case (ProcExit pid code)
  with assms(2) show ?thesis by simp
next
  case TimerFires
  with assms(2) show ?thesis
    by (simp add: ws_close_def frames_def split: list.splits)
next
  case SocketClosed
  with assms(2) show ?thesis by (simp add: frames_def)
next
  case SocketError
  with assms(2) show ?thesis by (simp add: frames_def)
next
  case (ChildError pid x)
  with assms(2) show ?thesis by simp
qed

lemma run_without_process:
  assumes "\<forall>e \<in> set es. \<not> is_launch e" and "procs s = []"
  shows "procs (run h s es) = []
     \<and> (\<exists>fs. frames (run h s es) = frames s @ fs
           \<and> (\<forall>f \<in> set fs.
                 (import_node_pty h = None \<and> f = Error_frame MSG_UNSUPPORTED)
                 \<or> (\<exists>x. import_node_pty h = Some x
                        \<and> f = Error_frame (MSG_LAUNCH_FAILED @ message_str x))))"
  using assms
proof (induction es arbitrary: s)
  case Nil
  then show ?case by simp
next
  case (Cons e es)
  let ?G = "\<lambda>f. (import_node_pty h = None \<and> f = Error_frame MSG_UNSUPPORTED)
                 \<or> (\<exists>x. import_node_pty h = Some x
                        \<and> f = Error_frame (MSG_LAUNCH_FAILED @ message_str x))"
  from Cons.prems have ne: "\<not> is_launch e" and rest: "\<forall>e \<in> set es. \<not> is_launch e"
    by simp_all
  from step_without_process [OF ne Cons.prems(2), of h] obtain fs1 where
    p: "procs (step h e s) = []"
    and f1: "frames (step h e s) = frames s @ fs1" "\<forall>f \<in> set fs1. ?G f"
    by blast
  from Cons.IH [OF rest p] obtain fs2 where
    r: "procs (run h (step h e s) es) = []"
       "frames (run h (step h e s) es) = frames (step h e s) @ fs2"
       "\<forall>f \<in> set fs2. ?G f"
    by blast
  have "frames (run h s (e # es)) = frames s @ (fs1 @ fs2)"
    using f1(1) r(2) by simp
  moreover have "\<forall>f \<in> set (fs1 @ fs2). ?G f"
    using f1(2) r(3) by auto
  moreover have "procs (run h s (e # es)) = []"
    using r(1) by simp
  ultimately show ?case by blast
qed

text \<open>
  C2. When the first connection message names a provider other than \<^verbatim>\<open>gpt\<close> and
  \<^verbatim>\<open>qwen\<close>, the first frame sent is an error frame and no process is spawned. If
  \<^verbatim>\<open>node-pty\<close> can be imported it is the unsupported-provider frame and the handler
  does nothing else: the socket stays open. If the import fails it is the launch-failure
  frame, sent before the provider is looked at, and the socket is closed. As long as no
  later message names a supported provider, no process exists and every frame sent is
  such an error frame, so no output frame is sent.
\<close>

theorem unsupported_flow_rejected:
  assumes "is_connect m" and "\<not> supported (flow m)" and "\<forall>e \<in> set es. \<not> is_launch e"
  shows "step h (Message m) handleOAuthLogin =
           (case import_node_pty h of
              None \<Rightarrow> handleOAuthLogin\<lparr>sends := [(OPEN, Error_frame MSG_UNSUPPORTED)]\<rparr>
            | Some x \<Rightarrow>
                handleOAuthLogin
                  \<lparr>readyState := CLOSING,
                   sends := [(OPEN, Error_frame (MSG_LAUNCH_FAILED @ message_str x))]\<rparr>)
     \<and> procs (run h handleOAuthLogin (Message m # es)) = []
     \<and> (\<exists>t fs. frames (run h handleOAuthLogin (Message m # es)) = Error_frame t # fs
           \<and> (\<forall>f \<in> set fs. \<exists>t'. f = Error_frame t'))
     \<and> (import_node_pty h = None \<longrightarrow>
          (\<forall>f \<in> set (frames (run h handleOAuthLogin (Message m # es))).
             f = Error_frame MSG_UNSUPPORTED))"
proof -
  let ?s1 = "step h (Message m) handleOAuthLogin"
  let ?G = "\<lambda>f. (import_node_pty h = None \<and> f = Error_frame MSG_UNSUPPORTED)
                 \<or> (\<exists>x. import_node_pty h = Some x
                        \<and> f = Error_frame (MSG_LAUNCH_FAILED @ message_str x))"
  have st: "?s1 =
           (case import_node_pty h of
              None \<Rightarrow> handleOAuthLogin\<lparr>sends := [(OPEN, Error_frame MSG_UNSUPPORTED)]\<rparr>
            | Some x \<Rightarrow>
                handleOAuthLogin
                  \<lparr>readyState := CLOSING,
                   sends := [(OPEN, Error_frame (MSG_LAUNCH_FAILED @ message_str x))]\<rparr>)"
  proof (cases "import_node_pty h")
    case None
    from connect_unsupported [OF None assms(1,2), of handleOAuthLogin] None show ?thesis
      by (simp add: ws_send_def handleOAuthLogin_def)
  next
    case (Some x)
    from connect_import_fails [OF Some assms(1), of handleOAuthLogin] Some show ?thesis
      by (simp add: launch_failed_def ws_send_def ws_close_def handleOAuthLogin_def)
  qed
  have p1: "procs ?s1 = []"
    by (simp only: st) (simp add: handleOAuthLogin_def split: option.splits)
  have f1: "\<exists>t. frames ?s1 = [Error_frame t] \<and> ?G (Error_frame t)"
    by (simp only: st) (simp add: frames_def split: option.splits)
  then obtain t where t: "frames ?s1 = [Error_frame t]" "?G (Error_frame t)"
    by blast
  from run_without_process [OF assms(3) p1, of h] obtain fs where
    r: "procs (run h ?s1 es) = []" "frames (run h ?s1 es) = frames ?s1 @ fs"
       "\<forall>f \<in> set fs. ?G f"
    by blast
  have run: "run h handleOAuthLogin (Message m # es) = run h ?s1 es"
    by simp
  have a: "procs (run h handleOAuthLogin (Message m # es)) = []"
    using r(1) by (simp only: run)
  have b: "frames (run h handleOAuthLogin (Message m # es)) = Error_frame t # fs"
    using r(2) t(1) by (simp only: run) simp
  have c: "\<forall>f \<in> set fs. \<exists>t'. f = Error_frame t'"
    using r(3) by blast
  have d: "import_node_pty h = None \<longrightarrow>
          (\<forall>f \<in> set (frames (run h handleOAuthLogin (Message m # es))).
             f = Error_frame MSG_UNSUPPORTED)"
    using r(3) t(2) by (simp only: b) auto
  from st a b c d show ?thesis by blast
qed

theorem unsupported_flow_rejected_witness:
  "is_connect (connect_frame ''claude'') \<and> \<not> supported (flow (connect_frame ''claude''))
   \<and> frames (run unix_host handleOAuthLogin
      [Message (connect_frame ''claude''), Message (input_frame ''y''), ProcData 0 ''x'',
       Message (connect_frame ''llama'')])
     = [Error_frame MSG_UNSUPPORTED, Error_frame MSG_UNSUPPORTED]
   \<and> readyState (run unix_host handleOAuthLogin [Message (connect_frame ''claude'')]) = OPEN
   \<and> sends (run no_module_host handleOAuthLogin [Message (connect_frame ''claude'')])
     = [(OPEN, Error_frame (MSG_LAUNCH_FAILED @ ''Cannot find package node-pty''))]
   \<and> readyState (run no_module_host handleOAuthLogin [Message (connect_frame ''claude'')])
     = CLOSING"
  using unsupported_flow_rejected [of "connect_frame ''claude''"
      "[Message (input_frame ''y''), ProcData 0 ''x'', Message (connect_frame ''llama'')]"
      unix_host]
    unsupported_flow_rejected [of "connect_frame ''claude''" "[]" no_module_host]
  by (simp add: bridge_eval unix_host_def no_module_host_def is_connect_def supported_def
      flow_def)

text \<open>
  The handler returns without closing the socket, and a later connection message with
  a supported provider still launches a process whose output is relayed.
\<close>

theorem unsupported_flow_counterexample:
  "readyState (run unix_host handleOAuthLogin [Message (connect_frame ''claude'')]) = OPEN
   \<and> sends (run unix_host handleOAuthLogin
        [Message (connect_frame ''claude''), Message (connect_frame ''gpt''), ProcData 0 ''hi''])
      = [(OPEN, Error_frame MSG_UNSUPPORTED), (OPEN, Output_frame ''hi'')]"
  by (simp add: bridge_eval unix_host_def)

subsection \<open>Starting a session\<close>

lemma first_connect:
  assumes "import_node_pty h = None" and "pty_spawn h = None \<or> child_spawn h = None"
    and "p = ''gpt'' \<or> p = ''qwen''"
  shows "\<exists>sp. step h (Message (connect_frame p)) handleOAuthLogin =
           handleOAuthLogin
             \<lparr>spawns := sp,
              procs := [case pty_spawn h of None \<Rightarrow> Shell | Some err \<Rightarrow> Child err],
              listeners := [case pty_spawn h of None \<Rightarrow> Some 0 | Some err \<Rightarrow> None]\<rparr>"
proof (cases "pty_spawn h")
  case None
  with assms(1,3) show ?thesis
    by (auto simp add: bridge_eval)
next
  case (Some err)
  with assms(2) have "child_spawn h = None" by simp
  with Some assms(1,3) show ?thesis
    by (auto simp add: bridge_eval)
qed

lemma run_append: "run h s (es @ es') = run h (run h s es) es'"
  by (induction es arbitrary: s) simp_all

lemma run_ProcData:
  assumes "readyState s = OPEN" and "pid < length (procs s)"
  shows "run h s (map (ProcData pid) ds) =
           s\<lparr>sends := sends s @ map (\<lambda>d. (OPEN, Output_frame d)) ds\<rparr>"
  using assms
proof (induction ds arbitrary: s)
  case Nil
  then show ?case by simp
next
  case (Cons d ds)
  let ?s1 = "s\<lparr>sends := sends s @ [(OPEN, Output_frame d)]\<rparr>"
  have st: "step h (ProcData pid d) s = ?s1"
    using Cons.prems by (simp add: onData_def ws_send_def)
  have "run h ?s1 (map (ProcData pid) ds) =
      ?s1\<lparr>sends := sends ?s1 @ map (\<lambda>d. (OPEN, Output_frame d)) ds\<rparr>"
    using Cons.prems by (intro Cons.IH) simp_all
  then show ?case
    by (simp add: st del: step.simps)
qed

lemma connect_then_output:
  assumes "import_node_pty h = None" and "pty_spawn h = None \<or> child_spawn h = None"
    and "p = ''gpt'' \<or> p = ''qwen''" and "ds \<noteq> []"
  shows "length (procs (step h (Message (connect_frame p)) handleOAuthLogin)) = 1
     \<and> frames (run h handleOAuthLogin
          (Message (connect_frame p) # map (ProcData 0) ds @ [ProcExit 0 code])) =
        map Output_frame ds @
          [if code = Some 0 then Success_frame MSG_LOGIN_OK
           else Error_frame
             (exit_message (case pty_spawn h of None \<Rightarrow> Shell | Some err \<Rightarrow> Child err) code)]
     \<and> hd (frames (run h handleOAuthLogin
          (Message (connect_frame p) # map (ProcData 0) ds @ [ProcExit 0 code]))) =
        Output_frame (hd ds)"
proof -
  let ?P = "case pty_spawn h of None \<Rightarrow> Shell | Some err \<Rightarrow> Child err"
  from first_connect [OF assms(1-3)] obtain s1 where
    s1: "step h (Message (connect_frame p)) handleOAuthLogin = s1"
    and r: "readyState s1 = OPEN" and pr: "procs s1 = [?P]" and sn: "sends s1 = []"
    by (auto simp: handleOAuthLogin_def)
  let ?s2 = "s1\<lparr>sends := sends s1 @ map (\<lambda>d. (OPEN, Output_frame d)) ds\<rparr>"
  have "run h handleOAuthLogin
          (Message (connect_frame p) # map (ProcData 0) ds @ [ProcExit 0 code]) =
        run h (run h s1 (map (ProcData 0) ds)) [ProcExit 0 code]"
    by (simp add: s1 run_append del: step.simps)
  also have "\<dots> = step h (ProcExit 0 code) ?s2"
    using r pr by (simp add: run_ProcData del: step.simps)
  also have "\<dots> = onExit ?P code ?s2"
    using pr by simp
  finally have "frames (run h handleOAuthLogin
          (Message (connect_frame p) # map (ProcData 0) ds @ [ProcExit 0 code])) =
        map Output_frame ds @
          [if code = Some 0 then Success_frame MSG_LOGIN_OK
           else Error_frame (exit_message ?P code)]"
    using r sn by (simp add: onExit_open frames_def comp_def)
  moreover have "hd (map Output_frame ds @ [x]) = Output_frame (hd ds)" for x
    using assms(4) by (cases ds) simp_all
  ultimately show ?thesis
    using s1 pr by simp
qed

lemma start_type_ignored:
  assumes "property d ''type'' = Some (JStr ''start'')"
  shows "step h (Message (Parsed d)) s = s"
proof -
  have "d \<noteq> JNull" using assms by auto
  moreover have "\<not> is_input (Parsed d)" using assms by (simp add: is_input_def)
  moreover have "truthy (property d ''type'')" using assms by simp
  ultimately show ?thesis
    by (simp add: fold_input_listener handleOAuthLogin_message_def Let_def)
qed

text \<open>
  C3. The message that starts a session is \<^verbatim>\<open>{"provider":flowId}\<close> with no \<^verbatim>\<open>type\<close>;
  a frame whose \<^verbatim>\<open>type\<close> is \<^verbatim>\<open>start\<close> is ignored by every listener, in every state
  and on every host, whatever else it carries. The connection message, sent first with
  \<^verbatim>\<open>gpt\<close> or \<^verbatim>\<open>qwen\<close> on a host where \<^verbatim>\<open>node-pty\<close> imports and one of the two spawn
  calls returns a process, attaches exactly one process; when that process then emits
  the chunks \<open>ds\<close> and exits, the frames sent are one output frame per chunk, in order,
  followed by the one terminal frame.
\<close>

theorem connect_output_before_terminal:
  "(property d ''type'' = Some (JStr ''start'') \<longrightarrow> step h' (Message (Parsed d)) s = s)
   \<and> (import_node_pty h = None \<and> (pty_spawn h = None \<or> child_spawn h = None)
        \<and> (p = ''gpt'' \<or> p = ''qwen'') \<and> ds \<noteq> [] \<longrightarrow>
      length (procs (step h (Message (connect_frame p)) handleOAuthLogin)) = 1
      \<and> frames (run h handleOAuthLogin
           (Message (connect_frame p) # map (ProcData 0) ds @ [ProcExit 0 code])) =
         map Output_frame ds @
           [if code = Some 0 then Success_frame MSG_LOGIN_OK
            else Error_frame
              (exit_message (case pty_spawn h of None \<Rightarrow> Shell | Some err \<Rightarrow> Child err) code)]
      \<and> hd (frames (run h handleOAuthLogin
           (Message (connect_frame p) # map (ProcData 0) ds @ [ProcExit 0 code]))) =
         Output_frame (hd ds))"
proof (rule conjI)
  show "property d ''type'' = Some (JStr ''start'') \<longrightarrow> step h' (Message (Parsed d)) s = s"
    using start_type_ignored by blast
next
  have "length (procs (step h (Message (connect_frame p)) handleOAuthLogin)) = 1
      \<and> frames (run h handleOAuthLogin
           (Message (connect_frame p) # map (ProcData 0) ds @ [ProcExit 0 code])) =
         map Output_frame ds @
           [if code = Some 0 then Success_frame MSG_LOGIN_OK
            else Error_frame
              (exit_message (case pty_spawn h of None \<Rightarrow> Shell | Some err \<Rightarrow> Child err) code)]
      \<and> hd (frames (run h handleOAuthLogin
           (Message (connect_frame p) # map (ProcData 0) ds @ [ProcExit 0 code]))) =
         Output_frame (hd ds)"
    if "import_node_pty h = None \<and> (pty_spawn h = None \<or> child_spawn h = None)
        \<and> (p = ''gpt'' \<or> p = ''qwen'') \<and> ds \<noteq> []"
  proof -
    from that have a: "import_node_pty h = None" "pty_spawn h = None \<or> child_spawn h = None"
      "p = ''gpt'' \<or> p = ''qwen''" "ds \<noteq> []"
      by simp_all
    from connect_then_output [OF a, of code] show ?thesis .
  qed
  then show "import_node_pty h = None \<and> (pty_spawn h = None \<or> child_spawn h = None)
        \<and> (p = ''gpt'' \<or> p = ''qwen'') \<and> ds \<noteq> [] \<longrightarrow>
      length (procs (step h (Message (connect_frame p)) handleOAuthLogin)) = 1
      \<and> frames (run h handleOAuthLogin
           (Message (connect_frame p) # map (ProcData 0) ds @ [ProcExit 0 code])) =
         map Output_frame ds @
           [if code = Some 0 then Success_frame MSG_LOGIN_OK
            else Error_frame
              (exit_message (case pty_spawn h of None \<Rightarrow> Shell | Some err \<Rightarrow> Child err) code)]
      \<and> hd (frames (run h handleOAuthLogin
           (Message (connect_frame p) # map (ProcData 0) ds @ [ProcExit 0 code]))) =
         Output_frame (hd ds)"
    by blast
qed

theorem connect_output_before_terminal_witness:
  "frames (run unix_host handleOAuthLogin
      [Message (connect_frame ''qwen''), ProcData 0 ''scan QR'', ProcExit 0 (Some 0)])
     = [Output_frame ''scan QR'', Success_frame MSG_LOGIN_OK]
   \<and> run unix_host handleOAuthLogin
      [Message (connect_frame ''qwen''), Message (start_frame ''gpt'')]
     = run unix_host handleOAuthLogin [Message (connect_frame ''qwen'')]"
  using connect_output_before_terminal
      [of "JObj [(''type'', JStr ''start''), (''provider'', JStr ''gpt'')]" unix_host
        "run unix_host handleOAuthLogin [Message (connect_frame ''qwen'')]"
        unix_host "''qwen''" "[''scan QR'']" "Some 0"]
  by (simp add: bridge_eval unix_host_def)

text \<open>
  The frame \<^verbatim>\<open>{"type":"start","provider":"qwen"}\<close>, sent first on a connection, leaves
  it as it was: nothing is spawned and nothing is sent.
\<close>

theorem start_frame_counterexample:
  "run unix_host handleOAuthLogin [Message (start_frame ''qwen'')] = handleOAuthLogin
   \<and> procs (run unix_host handleOAuthLogin [Message (start_frame ''qwen'')]) = []
   \<and> sends (run unix_host handleOAuthLogin [Message (start_frame ''qwen'')]) = []"
  by (simp add: bridge_eval unix_host_def)

subsection \<open>Forwarding input\<close>

text \<open>
  Every launch registers one input listener, closed over the shell it created or over
  \<^verbatim>\<open>undefined\<close>: in every reachable state the listeners that hold a shell are exactly
  the pseudo-terminal processes, each once.
\<close>

lemma targets_append:
  "targets (ls @ [Some n]) = targets ls @ [n]"
  "targets (ls @ [None]) = targets ls"
  by (induction ls rule: targets.induct) simp_all

lemma shells_snoc:
  "shells (ps @ [p]) = shells ps @ (if p = Shell then [length ps] else [])"
proof -
  have "filter (\<lambda>i. (ps @ [p]) ! i = Shell) [0..<length ps] =
      filter (\<lambda>i. ps ! i = Shell) [0..<length ps]"
    by (rule filter_cong) (simp_all add: nth_append)
  then show ?thesis
    by (simp add: shells_def)
qed

lemma shells_append:
  "shells (ps @ [Shell]) = shells ps @ [length ps]"
  "shells (ps @ [Child e]) = shells ps"
  by (simp_all add: shells_snoc)

lemma shells_set: "set (shells ps) = {i. i < length ps \<and> ps ! i = Shell}"
  by (auto simp: shells_def)

lemma shells_distinct: "distinct (shells ps)"
  by (simp add: shells_def)

lemma shells_mono: "pid \<in> set (shells ps) \<Longrightarrow> pid \<in> set (shells (ps @ qs))"
  by (simp add: shells_set nth_append)

lemma launch_listeners:
  assumes "targets (listeners s) = shells (procs s)"
  shows "targets (listeners (snd (launch h c s))) = shells (procs (snd (launch h c s)))
     \<and> (\<exists>qs. procs (snd (launch h c s)) = procs s @ qs)"
  using assms
  by (simp add: launch_def Let_def targets_append shells_append split: option.splits)

lemma start_listeners:
  assumes "targets (listeners s) = shells (procs s)"
  shows "targets (listeners (start h c s)) = shells (procs (start h c s))
     \<and> (\<exists>qs. procs (start h c s) = procs s @ qs)
     \<and> writes (start h c s) = writes s"
proof -
  obtain r s' where L: "launch h c s = (r, s')"
    by (cases "launch h c s")
  from launch_listeners [OF assms, of h c] launch_keeps(4) [of h c s] L
  have "targets (listeners s') = shells (procs s')" "\<exists>qs. procs s' = procs s @ qs"
    "writes s' = writes s"
    by simp_all
  then show ?thesis
    by (cases r) (simp_all add: start_def L launch_failed_def ws_send_def ws_close_def)
qed

lemma handle_message_listeners:
  assumes "targets (listeners s) = shells (procs s)"
  shows "targets (listeners (handleOAuthLogin_message h m s)) =
           shells (procs (handleOAuthLogin_message h m s))
     \<and> (\<exists>qs. procs (handleOAuthLogin_message h m s) = procs s @ qs)
     \<and> writes (handleOAuthLogin_message h m s) = writes s"
proof (cases m)
  case Malformed
  with assms show ?thesis
    by (simp add: handleOAuthLogin_message_def console_error_def)
next
  case (Parsed d)
  with assms start_listeners [OF assms, of h CMD_GPT] start_listeners [OF assms, of h CMD_QWEN]
  show ?thesis
    by (simp add: handleOAuthLogin_message_def console_error_def launch_failed_def
        ws_send_def ws_close_def Let_def split: option.splits)
qed

lemma filter_target:
  assumes "distinct ps" and "pid \<in> set ps"
  shows "map snd (filter (\<lambda>w. fst w = pid) (map (\<lambda>p. (p, x)) ps)) = [x]"
  using assms
proof (induction ps)
  case Nil
  then show ?case by simp
next
  case (Cons p ps)
  show ?case
  proof (cases "p = pid")
    case True
    with Cons.prems have "pid \<notin> set ps" by simp
    then have "filter (\<lambda>w. fst w = pid) (map (\<lambda>p. (p, x)) ps) = []"
      by (auto simp: filter_empty_conv)
    with True show ?thesis by simp
  next
    case False
    with Cons show ?thesis by simp
  qed
qed

lemma step_listeners:
  assumes "targets (listeners s) = shells (procs s)"
  shows "targets (listeners (step h e s)) = shells (procs (step h e s))
     \<and> (\<exists>qs. procs (step h e s) = procs s @ qs)"
proof (cases e)
  case (Message m)
  with handle_message_listeners [OF assms, of h m] show ?thesis
    by (simp add: fold_input_listener)
next
  case (ProcData pid d)
  with assms show ?thesis by (simp add: onData_def ws_send_def)
next
  case (ProcExit pid code)
  with assms show ?thesis by (simp add: onExit_def ws_send_def setTimeout_close_def)
next
  case TimerFires
  with assms show ?thesis by (simp add: ws_close_def split: list.splits)
next
  case SocketClosed
  with assms show ?thesis by simp
next
  case SocketError
  with assms show ?thesis by simp
next
  case (ChildError p x)
  with assms show ?thesis by (simp split: proc.splits)
qed

lemma step_writes_to:
  assumes "targets (listeners s) = shells (procs s)" and "pid \<in> set (shells (procs s))"
  shows "writes_to pid (step h e s) = writes_to pid s @ input_payloads [e]"
proof (cases e)
  case (Message m)
  have w: "writes (handleOAuthLogin_message h m s) = writes s"
    using handle_message_listeners [OF assms(1), of h m] by simp
  show ?thesis
  proof (cases "is_input m")
    case True
    have "map snd (filter (\<lambda>w. fst w = pid) (map (\<lambda>p. (p, payload m)) (shells (procs s))))
        = [payload m]"
      using assms(2) shells_distinct by (rule filter_target [rotated])
    with True Message w assms(1) show ?thesis
      by (simp add: fold_input_listener writes_to_def)
  next
    case False
    with Message w show ?thesis
      by (simp add: fold_input_listener writes_to_def)
  qed
next
  case (ProcData p d)
  then show ?thesis by (simp add: onData_def ws_send_def writes_to_def)
next
  case (ProcExit p code)
  then show ?thesis by (simp add: onExit_def ws_send_def setTimeout_close_def writes_to_def)
next
  case TimerFires
  then show ?thesis by (simp add: ws_close_def writes_to_def split: list.splits)
next
  case SocketClosed
  then show ?thesis by (simp add: writes_to_def)
next
  case SocketError
  then show ?thesis by (simp add: writes_to_def)
next
  case (ChildError p x)
  then show ?thesis by (simp add: writes_to_def split: proc.splits)
qed

lemma input_payloads_Cons: "input_payloads (e # es) = input_payloads [e] @ input_payloads es"
  by (cases e) simp_all

lemma run_writes_to:
  assumes "targets (listeners s) = shells (procs s)" and "pid \<in> set (shells (procs s))"
  shows "writes_to pid (run h s es) = writes_to pid s @ input_payloads es"
  using assms
proof (induction es arbitrary: s)
  case Nil
  then show ?case by simp
next
  case (Cons e es)
  from step_listeners [OF Cons.prems(1), of h e] obtain qs where
    inv: "targets (listeners (step h e s)) = shells (procs (step h e s))"
    and qs: "procs (step h e s) = procs s @ qs"
    by blast
  have mem: "pid \<in> set (shells (procs (step h e s)))"
    using Cons.prems(2) by (simp add: qs shells_mono)
  have "writes_to pid (run h s (e # es)) = writes_to pid (run h (step h e s) es)"
    by simp
  also have "\<dots> = writes_to pid (step h e s) @ input_payloads es"
    using inv mem by (rule Cons.IH)
  also have "\<dots> = (writes_to pid s @ input_payloads [e]) @ input_payloads es"
    using Cons.prems by (simp only: step_writes_to)
  also have "\<dots> = writes_to pid s @ input_payloads (e # es)"
    by (simp add: input_payloads_Cons [of e es])
  finally show ?case .
qed

lemma step_writes:
  assumes "targets (listeners s) = shells (procs s)"
  shows "\<exists>ws. writes (step h e s) = writes s @ ws
           \<and> (\<forall>w \<in> set ws. fst w \<in> set (shells (procs s)))"
proof (cases e)
  case (Message m)
  have "writes (handleOAuthLogin_message h m s) = writes s"
    using handle_message_listeners [OF assms, of h m] by simp
  with Message assms show ?thesis
    by (auto simp: fold_input_listener)
next
  case (ProcData p d)
  then show ?thesis by (simp add: onData_def ws_send_def)
next
  case (ProcExit p code)
  then show ?thesis by (simp add: onExit_def ws_send_def setTimeout_close_def)
next
  case TimerFires
  then show ?thesis by (simp add: ws_close_def split: list.splits)
next
  case SocketClosed
  then show ?thesis by simp
next
  case SocketError
  then show ?thesis by simp
next
  case (ChildError p x)
  then show ?thesis by (simp split: proc.splits)
qed

lemma run_reachable:
  assumes "targets (listeners s) = shells (procs s)"
    and "\<forall>w \<in> set (writes s). fst w \<in> set (shells (procs s))"
  shows "targets (listeners (run h s es)) = shells (procs (run h s es))
     \<and> (\<forall>w \<in> set (writes (run h s es)). fst w \<in> set (shells (procs (run h s es))))
     \<and> (\<exists>qs. procs (run h s es) = procs s @ qs)"
  using assms
proof (induction es arbitrary: s)
  case Nil
  then show ?case by simp
next
  case (Cons e es)
  from step_listeners [OF Cons.prems(1), of h e] obtain qs where
    inv: "targets (listeners (step h e s)) = shells (procs (step h e s))"
    and qs: "procs (step h e s) = procs s @ qs"
    by blast
  from step_writes [OF Cons.prems(1), of h e] obtain ws where
    ws: "writes (step h e s) = writes s @ ws" "\<forall>w \<in> set ws. fst w \<in> set (shells (procs s))"
    by blast
  have w: "\<forall>w \<in> set (writes (step h e s)). fst w \<in> set (shells (procs (step h e s)))"
    using Cons.prems(2) ws by (auto simp: qs shells_mono)
  from Cons.IH [OF inv w] obtain qs' where
    r: "targets (listeners (run h (step h e s) es)) = shells (procs (run h (step h e s) es))"
       "\<forall>w \<in> set (writes (run h (step h e s) es)).
          fst w \<in> set (shells (procs (run h (step h e s) es)))"
       "procs (run h (step h e s) es) = procs (step h e s) @ qs'"
    by blast
  have "procs (run h s (e # es)) = procs s @ (qs @ qs')"
    using r(3) qs by simp
  with r(1,2) show ?case by auto
qed

text \<open>
  C7. For a pseudo-terminal process attached to the connection, whatever events follow
  (input frames, other messages, process output, further launches), the values written
  to its input are exactly the \<^verbatim>\<open>data\<close> payloads of the input frames received, one
  \<^verbatim>\<open>shell.write\<close> per frame, unchanged and in arrival order. For a process attached
  through the wrapper, nothing is ever written to its input, whatever events arrive.
\<close>

theorem input_forwarded_in_order:
  assumes "s = run h handleOAuthLogin es0" and "pid < length (procs s)"
  shows "(procs s ! pid = Shell \<longrightarrow>
            writes_to pid (run h s es) = writes_to pid s @ input_payloads es)
     \<and> (\<forall>err. procs s ! pid = Child err \<longrightarrow> writes_to pid (run h s es) = [])"
proof -
  have i0: "targets (listeners handleOAuthLogin) = shells (procs handleOAuthLogin)"
    and w0: "\<forall>w \<in> set (writes handleOAuthLogin). fst w \<in> set (shells (procs handleOAuthLogin))"
    by (simp_all add: handleOAuthLogin_def shells_def)
  from run_reachable [OF i0 w0, of h es0]
  have inv: "targets (listeners s) = shells (procs s)"
    and w: "\<forall>w \<in> set (writes s). fst w \<in> set (shells (procs s))"
    unfolding assms(1) by simp_all
  have shell: "writes_to pid (run h s es) = writes_to pid s @ input_payloads es"
    if "procs s ! pid = Shell"
  proof -
    have "pid \<in> set (shells (procs s))"
      using assms(2) that by (simp add: shells_set)
    with inv show ?thesis by (rule run_writes_to)
  qed
  have child: "writes_to pid (run h s es) = []" if "procs s ! pid = Child err" for err
  proof -
    from run_reachable [OF inv w, of h es] obtain qs where
      w': "\<forall>w \<in> set (writes (run h s es)). fst w \<in> set (shells (procs (run h s es)))"
      and qs: "procs (run h s es) = procs s @ qs"
      by blast
    have "procs (run h s es) ! pid = Child err"
      using assms(2) that by (simp add: qs nth_append)
    then have "pid \<notin> set (shells (procs (run h s es)))"
      by (simp add: shells_set)
    with w' have "\<forall>w \<in> set (writes (run h s es)). fst w \<noteq> pid"
      by auto
    then show ?thesis
      by (simp add: writes_to_def filter_empty_conv)
  qed
  from shell child show ?thesis by blast
qed

theorem input_forwarded_in_order_witness:
  "procs (run unix_host handleOAuthLogin [Message (connect_frame ''qwen'')]) ! 0 = Shell
   \<and> writes_to 0 (run unix_host handleOAuthLogin
       [Message (connect_frame ''qwen''), Message (input_frame ''a''), ProcData 0 ''x'',
        Message Malformed, Message (input_frame ''bc''), Message (input_frame ''a'')])
     = [Some (JStr ''a''), Some (JStr ''bc''), Some (JStr ''a'')]
   \<and> procs (run no_pty_host handleOAuthLogin [Message (connect_frame ''qwen'')]) ! 0
     = Child (JsError (Some ''forkpty(3) failed.''))
   \<and> writes_to 0 (run no_pty_host handleOAuthLogin
       [Message (connect_frame ''qwen''), Message (input_frame ''a''),
        Message (input_frame ''bc'')]) = []"
  using input_forwarded_in_order [of "run unix_host handleOAuthLogin [Message (connect_frame ''qwen'')]"
      unix_host "[Message (connect_frame ''qwen'')]" 0
      "[Message (input_frame ''a''), ProcData 0 ''x'',
        Message Malformed, Message (input_frame ''bc''), Message (input_frame ''a'')]"]
    input_forwarded_in_order [of "run no_pty_host handleOAuthLogin [Message (connect_frame ''qwen'')]"
      no_pty_host "[Message (connect_frame ''qwen'')]" 0
      "[Message (input_frame ''a''), Message (input_frame ''bc'')]"]
  by (simp add: bridge_eval unix_host_def no_pty_host_def writes_to_def is_input_def payload_def)

text \<open>
  A process started through the wrapper is attached too, but its listener holds
  \<^verbatim>\<open>undefined\<close> for \<^verbatim>\<open>shell\<close> and the test \<^verbatim>\<open>inputData.type === 'input' && shell\<close>
  drops every input frame.
\<close>

theorem fallback_drops_input_counterexample:
  "procs (run no_pty_host handleOAuthLogin
      [Message (connect_frame ''qwen''), Message (input_frame ''y'')])
     = [Child (JsError (Some ''forkpty(3) failed.''))]
   \<and> writes (run no_pty_host handleOAuthLogin
      [Message (connect_frame ''qwen''), Message (input_frame ''y'')]) = []"
  by (simp add: bridge_eval no_pty_host_def unix_host_def)

end
